theory Spec2Isabelle
  imports Main "HOL-Library.Word"
begin

unbundle bit_operations_syntax

section \<open>JavaScript strings\<close>

text \<open>
  A JavaScript string is a sequence of UTF-16 code units; \<open>length\<close>, \<open>substring\<close>,
  \<open>split\<close>, \<open>trim\<close> and \<open>includes\<close> all count and compare code units. String
  literals of the source that are plain ASCII are written \<open>lit ''...''\<close>; other characters
  are given by their code unit.
\<close>

type_synonym jschar = "16 word"
type_synonym jsstring = "jschar list"

definition lit :: "string \<Rightarrow> jsstring" where
  "lit s = map of_char s"

text \<open>The characters \<open>String.prototype.trim\<close> strips: WhiteSpace and LineTerminator.\<close>

definition isWhiteSpace :: "jschar \<Rightarrow> bool" where
  "isWhiteSpace c \<longleftrightarrow>
     c \<in> set [0x09, 0x0A, 0x0B, 0x0C, 0x0D, 0x20, 0xA0, 0x1680,
              0x2000, 0x2001, 0x2002, 0x2003, 0x2004, 0x2005, 0x2006, 0x2007, 0x2008,
              0x2009, 0x200A, 0x2028, 0x2029, 0x202F, 0x205F, 0x3000, 0xFEFF]"

definition trim :: "jsstring \<Rightarrow> jsstring" where
  "trim s = rev (dropWhile isWhiteSpace (rev (dropWhile isWhiteSpace s)))"

text \<open>\<open>s.split(c)\<close> for a one-character separator: never the empty array.\<close>

fun str_split :: "jschar \<Rightarrow> jsstring \<Rightarrow> jsstring list" where
  "str_split c [] = [[]]"
| "str_split c (x # xs) =
     (if x = c then [] # str_split c xs
      else (case str_split c xs of
              [] \<Rightarrow> [[x]]
            | y # ys \<Rightarrow> (x # y) # ys))"

text \<open>\<open>s.substring(0, n)\<close> for an integer \<open>n\<close>: a negative end is taken as 0.\<close>

definition substring0 :: "int \<Rightarrow> jsstring \<Rightarrow> jsstring" where
  "substring0 n s = take (nat n) s"

text \<open>\<open>s.substring(n)\<close> for a natural number \<open>n\<close>.\<close>

definition substring_from :: "nat \<Rightarrow> jsstring \<Rightarrow> jsstring" where
  "substring_from n s = drop n s"

text \<open>\<open>s.includes(c)\<close> for a one-character needle.\<close>

definition str_includes :: "jsstring \<Rightarrow> jschar \<Rightarrow> bool" where
  "str_includes s c \<longleftrightarrow> c \<in> set s"

text \<open>A string is truthy iff it is not empty.\<close>

definition truthy :: "jsstring \<Rightarrow> bool" where
  "truthy s \<longleftrightarrow> s \<noteq> []"

text \<open>\<open>xs.join(sep)\<close>.\<close>

fun join :: "jsstring \<Rightarrow> jsstring list \<Rightarrow> jsstring" where
  "join sep [] = []"
| "join sep [x] = x"
| "join sep (x # y # ys) = x @ sep @ join sep (y # ys)"

text \<open>The decimal digits of a natural number, as a template literal prints it.\<close>

fun showNat :: "nat \<Rightarrow> jsstring" where
  "showNat n =
     (if n < 10 then [of_nat (48 + n)]
      else showNat (n div 10) @ [of_nat (48 + n mod 10)])"

declare showNat.simps [simp del]

definition showInt :: "int \<Rightarrow> jsstring" where
  "showInt i = (if i < 0 then lit ''-'' @ showNat (nat (- i)) else showNat (nat i))"


section \<open>index.ts: parseGitStatus\<close>

record GitChanges =
  added :: "jsstring list"
  modified :: "jsstring list"
  deleted :: "jsstring list"

text \<open>The body of the \<open>for\<close> loop: one line, pushed onto each list whose letter its
  two-character code contains.\<close>

definition classifyLine :: "GitChanges \<Rightarrow> jsstring \<Rightarrow> GitChanges" where
  "classifyLine acc line =
     (let status = substring0 2 line;
          file = substring_from 3 line;
          acc1 = (if str_includes status 0x41 then acc\<lparr>added := added acc @ [file]\<rparr> else acc);
          acc2 = (if str_includes status 0x4D then acc1\<lparr>modified := modified acc1 @ [file]\<rparr> else acc1);
          acc3 = (if str_includes status 0x44 then acc2\<lparr>deleted := deleted acc2 @ [file]\<rparr> else acc2)
      in acc3)"

definition statusLines :: "jsstring \<Rightarrow> jsstring list" where
  "statusLines status = filter (\<lambda>line. truthy (trim line)) (str_split 0x0A status)"

definition parseGitStatus :: "jsstring \<Rightarrow> GitChanges" where
  "parseGitStatus status =
     foldl classifyLine \<lparr>added = [], modified = [], deleted = []\<rparr> (statusLines status)"


section \<open>Errors\<close>

text \<open>Everything the source throws is an \<open>Error\<close> object carrying a message. A
  computation that may throw returns \<open>error + 'a\<close>, with \<open>Inl\<close> for the throw.\<close>

datatype error = Error (message: jsstring)


section \<open>util/config/FoxyConfig.ts: the FoxyConfig interface\<close>

datatype language = pt | en

datatype commitStyle = conventional | simple | detailed

record GitConfig =
  autoAdd :: bool
  confirmBeforeCommit :: bool
  includeStats :: bool
  autoCommit :: bool

record FoxyConfig =
  language :: language
  conventionalCommits :: bool
  commitStyle :: commitStyle
  maxMessageLength :: int
  includeScope :: bool
  includeBreakingChanges :: bool
  emojis :: bool
  git :: GitConfig

definition DEFAULT_CONFIG :: FoxyConfig where
  "DEFAULT_CONFIG =
     \<lparr>language = pt, conventionalCommits = True, commitStyle = conventional,
      maxMessageLength = 72, includeScope = True, includeBreakingChanges = True,
      emojis = True,
      git = \<lparr>autoAdd = True, confirmBeforeCommit = False, includeStats = True,
             autoCommit = False\<rparr>\<rparr>"


section \<open>util/CommitMessageGenerator.ts\<close>

text \<open>One entry of the change summary: the first five paths, and how many more.\<close>

definition summaryLine :: "jsstring \<Rightarrow> jsstring list \<Rightarrow> jsstring" where
  "summaryLine label paths =
     (let files = join (lit '', '') (take 5 paths);
          more = (if length paths > 5 then lit '' e mais '' @ showNat (length paths - 5) else [])
      in label @ files @ more)"

definition buildChangeSummary :: "GitChanges \<Rightarrow> jsstring" where
  "buildChangeSummary changes =
     (let summary0 = [];
          summary1 = (if length (added changes) > 0
                      then summary0 @ [summaryLine (lit ''Adicionados: '') (added changes)]
                      else summary0);
          summary2 = (if length (modified changes) > 0
                      then summary1 @ [summaryLine (lit ''Modificados: '') (modified changes)]
                      else summary1);
          summary3 = (if length (deleted changes) > 0
                      then summary2 @ [summaryLine (lit ''Removidos: '') (deleted changes)]
                      else summary2)
      in join [0x0A] summary3)"

definition languageName :: "FoxyConfig \<Rightarrow> jsstring" where
  "languageName cfg =
     (if language cfg = pt then lit ''portugu'' @ [0xEA] @ lit ''s brasileiro''
      else lit ''english'')"

definition emojiInstruction :: "FoxyConfig \<Rightarrow> jsstring" where
  "emojiInstruction cfg =
     (if emojis cfg
      then lit ''- Inclua emoji no in'' @ [0xED] @ lit ''cio da mensagem (ex: '' @ [0x2728]
           @ lit '' feat: nova funcionalidade)''
      else lit ''- N'' @ [0xC3] @ lit ''O inclua emojis na mensagem'')"

text \<open>The prompt of \<open>generateConventionalCommit\<close>, line by line.\<close>

definition conventionalPrompt :: "FoxyConfig \<Rightarrow> jsstring \<Rightarrow> jsstring" where
  "conventionalPrompt cfg changeSummary = concat
     [lit ''Analise as seguintes mudan'', [0xE7], lit ''as no c'', [0xF3],
      lit ''digo e gere uma mensagem de commit seguindo Conventional Commits:'', [0x0A],
      [0x0A],
      changeSummary, [0x0A],
      [0x0A],
      lit ''Gere uma mensagem no formato: tipo(escopo): descri'', [0xE7, 0xE3], lit ''o'', [0x0A],
      [0x0A],
      lit ''Tipos dispon'', [0xED], lit ''veis:'', [0x0A],
      lit ''- feat: nova funcionalidade'', [0x0A],
      lit ''- fix: corre'', [0xE7, 0xE3], lit ''o de bug'', [0x0A],
      lit ''- refactor: refatora'', [0xE7, 0xE3], lit ''o de c'', [0xF3], lit ''digo'', [0x0A],
      lit ''- style: mudan'', [0xE7], lit ''as de formata'', [0xE7, 0xE3], lit ''o/estilo'', [0x0A],
      lit ''- docs: documenta'', [0xE7, 0xE3], lit ''o'', [0x0A],
      lit ''- test: testes'', [0x0A],
      lit ''- chore: tarefas de manuten'', [0xE7, 0xE3], lit ''o'', [0x0A],
      lit ''- perf: melhorias de performance'', [0x0A],
      lit ''- ci: integra'', [0xE7, 0xE3], lit ''o cont'', [0xED], lit ''nua'', [0x0A],
      lit ''- build: sistema de build'', [0x0A],
      lit ''- revert: reverter commit'', [0x0A],
      [0x0A],
      lit ''Regras:'', [0x0A],
      lit ''- Use '', languageName cfg, [0x0A],
      lit ''- Seja conciso e claro'', [0x0A],
      lit ''- M'', [0xE1], lit ''ximo '', showInt (maxMessageLength cfg), lit '' caracteres'', [0x0A],
      lit ''- Use imperativo (ex: '', [0x22], lit ''Adiciona'', [0x22], lit '', '', [0x22],
        lit ''Corrige'', [0x22], lit '', '', [0x22], lit ''Remove'', [0x22], lit '')'', [0x0A],
      lit ''- Escopo '', [0xE9], lit '' opcional, use apenas se relevante'', [0x0A],
      lit ''- '', emojiInstruction cfg, [0x0A],
      lit ''- N'', [0xE3], lit ''o inclua aspas na resposta'', [0x0A],
      [0x0A],
      lit ''Responda apenas com a mensagem do commit:'']"

text \<open>The prompt of \<open>generateSimpleCommit\<close>.\<close>

definition simplePrompt :: "FoxyConfig \<Rightarrow> jsstring \<Rightarrow> jsstring" where
  "simplePrompt cfg changeSummary = concat
     [lit ''Com base nas seguintes mudan'', [0xE7], lit ''as no c'', [0xF3],
      lit ''digo, gere uma mensagem de commit concisa e descritiva em '',
      languageName cfg, lit '':'', [0x0A],
      [0x0A],
      changeSummary, [0x0A],
      [0x0A],
      lit ''A mensagem deve:'', [0x0A],
      lit ''- Ser clara e objetiva'', [0x0A],
      lit ''- Descrever o que foi feito'', [0x0A],
      lit ''- Usar imperativo (ex: '', [0x22], lit ''Adiciona'', [0x22], lit '', '', [0x22],
        lit ''Corrige'', [0x22], lit '', '', [0x22], lit ''Remove'', [0x22], lit '')'', [0x0A],
      lit ''- Ter no m'', [0xE1], lit ''ximo '', showInt (maxMessageLength cfg),
        lit '' caracteres'', [0x0A],
      lit ''- N'', [0xE3], lit ''o incluir aspas ou caracteres especiais'', [0x0A],
      [0x0A],
      lit ''Responda apenas com a mensagem do commit:'']"

text \<open>\<open>message.trim().replace(/['"]/g, '').replace(/\n/g, ' ').substring(0, max)\<close>\<close>

definition cleanMessage :: "FoxyConfig \<Rightarrow> jsstring \<Rightarrow> jsstring" where
  "cleanMessage cfg msg =
     substring0 (maxMessageLength cfg)
       (map (\<lambda>c. if c = 0x0A then 0x20 else c)
          (filter (\<lambda>c. c \<noteq> 0x27 \<and> c \<noteq> 0x22) (trim msg)))"

definition getFallbackMessage :: "FoxyConfig \<Rightarrow> GitChanges \<Rightarrow> jsstring" where
  "getFallbackMessage cfg changes =
     (let totalChanges = length (added changes) + length (modified changes)
                         + length (deleted changes);
          emoji = (if emojis cfg then [0x2728] @ lit '' '' else [])
      in if conventionalCommits cfg then
           (if length (added changes) > length (modified changes)
            then emoji @ lit ''feat: adiciona '' @ showNat totalChanges @ lit '' arquivo(s)''
            else if length (modified changes) > 0
            then emoji @ lit ''fix: atualiza '' @ showNat totalChanges @ lit '' arquivo(s)''
            else emoji @ lit ''chore: atualiza '' @ showNat totalChanges @ lit '' arquivo(s)'')
         else emoji @ lit ''Atualiza '' @ showNat totalChanges @ lit '' arquivo(s)'')"

text \<open>
  The remote call. \<open>remote\<close> stands for \<open>foxyClient.responder(prompt)\<close> followed by
  awaiting the \<open>responded\<close> promise: the text generated, or the error either await
  rejects with. Both awaits stand inside the \<open>try\<close> block, whose \<open>catch\<close> returns the
  fallback message.
\<close>

definition generateConventionalCommit ::
  "FoxyConfig \<Rightarrow> (jsstring \<Rightarrow> error + jsstring) \<Rightarrow> GitChanges \<Rightarrow> jsstring \<Rightarrow> error + jsstring" where
  "generateConventionalCommit cfg remote changes changeSummary =
     (case remote (conventionalPrompt cfg changeSummary) of
        Inr msg \<Rightarrow> Inr (cleanMessage cfg msg)
      | Inl err \<Rightarrow> Inr (getFallbackMessage cfg changes))"

definition generateSimpleCommit ::
  "FoxyConfig \<Rightarrow> (jsstring \<Rightarrow> error + jsstring) \<Rightarrow> GitChanges \<Rightarrow> jsstring \<Rightarrow> error + jsstring" where
  "generateSimpleCommit cfg remote changes changeSummary =
     (case remote (simplePrompt cfg changeSummary) of
        Inr msg \<Rightarrow> Inr (cleanMessage cfg msg)
      | Inl err \<Rightarrow> Inr (getFallbackMessage cfg changes))"

definition generateCommitMessage ::
  "FoxyConfig \<Rightarrow> (jsstring \<Rightarrow> error + jsstring) \<Rightarrow> GitChanges \<Rightarrow> error + jsstring" where
  "generateCommitMessage cfg remote changes =
     (let changeSummary = buildChangeSummary changes
      in if conventionalCommits cfg
         then generateConventionalCommit cfg remote changes changeSummary
         else generateSimpleCommit cfg remote changes changeSummary)"

text \<open>The prompt \<open>generateCommitMessage\<close> sends to the remote call.\<close>

definition commitPrompt :: "FoxyConfig \<Rightarrow> GitChanges \<Rightarrow> jsstring" where
  "commitPrompt cfg changes =
     (if conventionalCommits cfg
      then conventionalPrompt cfg (buildChangeSummary changes)
      else simplePrompt cfg (buildChangeSummary changes))"


section \<open>JSON values\<close>

text \<open>
  What \<open>JSON.parse\<close> returns. An object is the list of its properties in insertion
  order, each key once (JavaScript moves integer-like keys to the front, which nothing
  here observes). Numbers are the integers; \<open>undefined\<close> is not a JSON value and is
  \<open>None\<close> where a value may be missing.
\<close>

datatype json =
    JNull
  | JBool bool
  | JNum int
  | JStr jsstring
  | JArr "json list"
  | JObj "(jsstring \<times> json) list"


section \<open>The host: platform, libraries, file system, console\<close>

type_synonym byte = "8 word"
type_synonym path = jsstring

text \<open>
  What the program takes from Node.js and its libraries without defining it: the
  platform and environment, the shell, SHA-256 (\<open>createHash('sha256').update(s).digest('hex')\<close>),
  the AES-256 block cipher under the CBC mode of \<open>node:crypto\<close> (key, 16-byte block to
  16-byte block, and back), \<open>JSON.parse\<close> and \<open>JSON.stringify(v, null, 2)\<close>, the remote
  generation call of the Gemini client (API key, prompt), the prompt builder
  \<open>PromptToGenerate\<close> (mode is \<open>chat_mode\<close> or not, question), and the clock.
\<close>

record host =
  platform :: jsstring
  homedir :: jsstring
  env :: "jsstring \<rightharpoonup> jsstring"
  execSync :: "jsstring \<Rightarrow> error + jsstring"
  sha256hex :: "jsstring \<Rightarrow> jsstring"
  aesEncryptBlock :: "byte list \<Rightarrow> byte list \<Rightarrow> byte list"
  aesDecryptBlock :: "byte list \<Rightarrow> byte list \<Rightarrow> byte list"
  JSON_parse :: "jsstring \<Rightarrow> error + json"
  JSON_stringify :: "json \<Rightarrow> jsstring"
  generate :: "jsstring \<Rightarrow> jsstring \<Rightarrow> error + jsstring"
  PromptToGenerate :: "bool \<Rightarrow> jsstring \<Rightarrow> error + jsstring"
  now :: nat

datatype console_line = Log jsstring | Warn jsstring | ConsoleError jsstring

text \<open>
  The mutable world: the files by path, the paths whose read or write throws (and the
  error thrown), and what was printed on the console, oldest first.
\<close>

record world =
  files :: "path \<rightharpoonup> jsstring"
  readError :: "path \<rightharpoonup> error"
  writeError :: "path \<rightharpoonup> error"
  console :: "console_line list"

definition existsSync :: "world \<Rightarrow> path \<Rightarrow> bool" where
  "existsSync w p \<longleftrightarrow> files w p \<noteq> None"

definition readFileSync :: "world \<Rightarrow> path \<Rightarrow> error + jsstring" where
  "readFileSync w p =
     (case readError w p of
        Some e \<Rightarrow> Inl e
      | None \<Rightarrow>
          (case files w p of
             Some content \<Rightarrow> Inr content
           | None \<Rightarrow> Inl (Error (lit ''ENOENT: no such file or directory, open ''
                                  @ [0x27] @ p @ [0x27]))))"

definition writeFileSync :: "world \<Rightarrow> path \<Rightarrow> jsstring \<Rightarrow> error + world" where
  "writeFileSync w p content =
     (case writeError w p of
        Some e \<Rightarrow> Inl e
      | None \<Rightarrow> Inr (w\<lparr>files := (files w)(p \<mapsto> content)\<rparr>))"

definition print :: "console_line \<Rightarrow> world \<Rightarrow> world" where
  "print l w = w\<lparr>console := console w @ [l]\<rparr>"

text \<open>\<open>try { body } catch (e) { handler }\<close> for a body without effects on the world.\<close>

definition tryCatch :: "error + 'a \<Rightarrow> (error \<Rightarrow> error + 'a) \<Rightarrow> error + 'a" where
  "tryCatch body handler = (case body of Inr v \<Rightarrow> Inr v | Inl e \<Rightarrow> handler e)"

text \<open>\<open>a || b\<close> for a string \<open>a\<close> that may be undefined: \<open>b\<close> when \<open>a\<close> is undefined or
  empty.\<close>

definition orElse :: "jsstring option \<Rightarrow> jsstring \<Rightarrow> jsstring" where
  "orElse a b = (case a of Some s \<Rightarrow> if truthy s then s else b | None \<Rightarrow> b)"

text \<open>\<open>xs[i]\<close>: undefined out of range.\<close>

definition at :: "'a list \<Rightarrow> nat \<Rightarrow> 'a option" where
  "at xs i = (if i < length xs then Some (xs ! i) else None)"


section \<open>Hexadecimal encoding of buffers\<close>

definition hexDigit :: "nat \<Rightarrow> jschar" where
  "hexDigit n = (if n < 10 then of_nat (48 + n) else of_nat (87 + n))"

definition hexValue :: "jschar \<Rightarrow> nat option" where
  "hexValue c =
     (let n = unat c
      in if 48 \<le> n \<and> n \<le> 57 then Some (n - 48)
         else if 97 \<le> n \<and> n \<le> 102 then Some (n - 87)
         else if 65 \<le> n \<and> n \<le> 70 then Some (n - 55)
         else None)"

text \<open>\<open>buf.toString('hex')\<close>: two lower-case digits a byte.\<close>

definition toHex :: "byte list \<Rightarrow> jsstring" where
  "toHex bs = concat (map (\<lambda>b. [hexDigit (unat b div 16), hexDigit (unat b mod 16)]) bs)"

text \<open>\<open>Buffer.from(s, 'hex')\<close>: decodes pairs of digits and stops at the first pair that
  is not hexadecimal; a last single character is dropped.\<close>

fun fromHex :: "jsstring \<Rightarrow> byte list" where
  "fromHex (a # b # rest) =
     (case (hexValue a, hexValue b) of
        (Some x, Some y) \<Rightarrow> of_nat (16 * x + y) # fromHex rest
      | _ \<Rightarrow> [])"
| "fromHex _ = []"


section \<open>UTF-8, as Node.js encodes and decodes strings\<close>

text \<open>
  A string is well formed when every high surrogate is followed by a low surrogate and
  every low surrogate follows a high one. Encoding a string as \<open>'utf8'\<close> writes the
  code point of each surrogate pair and of each other code unit, and writes U+FFFD
  (\<open>EF BF BD\<close>) for a surrogate without its partner. Decoding reads the well-formed
  sequences and gives U+FFFD for each maximal part of an ill-formed one; a byte order
  mark is kept.
\<close>

definition isHighSurrogate :: "jschar \<Rightarrow> bool" where
  "isHighSurrogate c \<longleftrightarrow> 0xD800 \<le> unat c \<and> unat c \<le> 0xDBFF"

definition isLowSurrogate :: "jschar \<Rightarrow> bool" where
  "isLowSurrogate c \<longleftrightarrow> 0xDC00 \<le> unat c \<and> unat c \<le> 0xDFFF"

fun wellFormed :: "jsstring \<Rightarrow> bool" where
  "wellFormed [] = True"
| "wellFormed [c] = (\<not> isHighSurrogate c \<and> \<not> isLowSurrogate c)"
| "wellFormed (c # d # rest) =
     (if isHighSurrogate c then isLowSurrogate d \<and> wellFormed rest
      else \<not> isLowSurrogate c \<and> wellFormed (d # rest))"

definition utf8Bytes :: "nat \<Rightarrow> byte list" where
  "utf8Bytes cp =
     (if cp < 0x80 then [of_nat cp]
      else if cp < 0x800 then [of_nat (0xC0 + cp div 64), of_nat (0x80 + cp mod 64)]
      else if cp < 0x10000 then
        [of_nat (0xE0 + cp div 4096), of_nat (0x80 + cp div 64 mod 64), of_nat (0x80 + cp mod 64)]
      else
        [of_nat (0xF0 + cp div 262144), of_nat (0x80 + cp div 4096 mod 64),
         of_nat (0x80 + cp div 64 mod 64), of_nat (0x80 + cp mod 64)])"

fun utf8Encode :: "jsstring \<Rightarrow> byte list" where
  "utf8Encode [] = []"
| "utf8Encode [c] =
     (if isHighSurrogate c \<or> isLowSurrogate c then utf8Bytes 0xFFFD else utf8Bytes (unat c))"
| "utf8Encode (c # d # rest) =
     (if isHighSurrogate c then
        (if isLowSurrogate d
         then utf8Bytes (0x10000 + (unat c - 0xD800) * 0x400 + (unat d - 0xDC00)) @ utf8Encode rest
         else utf8Bytes 0xFFFD @ utf8Encode (d # rest))
      else if isLowSurrogate c then utf8Bytes 0xFFFD @ utf8Encode (d # rest)
      else utf8Bytes (unat c) @ utf8Encode (d # rest))"

definition codeUnits :: "nat \<Rightarrow> jsstring" where
  "codeUnits cp =
     (if cp < 0x10000 then [of_nat cp]
      else [of_nat (0xD800 + (cp - 0x10000) div 0x400), of_nat (0xDC00 + (cp - 0x10000) mod 0x400)])"

definition isContinuation :: "nat \<Rightarrow> nat \<Rightarrow> byte \<Rightarrow> bool" where
  "isContinuation lower upper b \<longleftrightarrow> lower \<le> unat b \<and> unat b \<le> upper"

fun utf8Decode :: "byte list \<Rightarrow> jsstring" where
  "utf8Decode [] = []"
| "utf8Decode (b0 # rest) =
     (let n0 = unat b0
      in if n0 < 0x80 then of_nat n0 # utf8Decode rest
         else if 0xC2 \<le> n0 \<and> n0 \<le> 0xDF then
           (case rest of
              [] \<Rightarrow> [0xFFFD]
            | b1 # r1 \<Rightarrow>
                if isContinuation 0x80 0xBF b1
                then codeUnits ((n0 - 0xC0) * 64 + (unat b1 - 0x80)) @ utf8Decode r1
                else 0xFFFD # utf8Decode rest)
         else if 0xE0 \<le> n0 \<and> n0 \<le> 0xEF then
           (case rest of
              [] \<Rightarrow> [0xFFFD]
            | b1 # r1 \<Rightarrow>
                if isContinuation (if n0 = 0xE0 then 0xA0 else 0x80)
                                  (if n0 = 0xED then 0x9F else 0xBF) b1
                then
                  (case r1 of
                     [] \<Rightarrow> [0xFFFD]
                   | b2 # r2 \<Rightarrow>
                       if isContinuation 0x80 0xBF b2
                       then codeUnits ((n0 - 0xE0) * 4096 + (unat b1 - 0x80) * 64
                                       + (unat b2 - 0x80)) @ utf8Decode r2
                       else 0xFFFD # utf8Decode r1)
                else 0xFFFD # utf8Decode rest)
         else if 0xF0 \<le> n0 \<and> n0 \<le> 0xF4 then
           (case rest of
              [] \<Rightarrow> [0xFFFD]
            | b1 # r1 \<Rightarrow>
                if isContinuation (if n0 = 0xF0 then 0x90 else 0x80)
                                  (if n0 = 0xF4 then 0x8F else 0xBF) b1
                then
                  (case r1 of
                     [] \<Rightarrow> [0xFFFD]
                   | b2 # r2 \<Rightarrow>
                       if isContinuation 0x80 0xBF b2
                       then
                         (case r2 of
                            [] \<Rightarrow> [0xFFFD]
                          | b3 # r3 \<Rightarrow>
                              if isContinuation 0x80 0xBF b3
                              then codeUnits ((n0 - 0xF0) * 262144 + (unat b1 - 0x80) * 4096
                                              + (unat b2 - 0x80) * 64 + (unat b3 - 0x80))
                                   @ utf8Decode r3
                              else 0xFFFD # utf8Decode r2)
                       else 0xFFFD # utf8Decode r1)
                else 0xFFFD # utf8Decode rest)
         else 0xFFFD # utf8Decode rest)"


section \<open>AES-256-CBC, as node:crypto runs it\<close>

text \<open>
  \<open>createCipheriv('aes-256-cbc', key, iv)\<close> and \<open>createDecipheriv\<close> take the key as the
  UTF-8 bytes of the string and throw for a key that is not 32 bytes or an IV that is not
  16 bytes. The text of the errors of the library varies with its version; none of them
  leaves \<open>encrypt\<close> or \<open>decrypt\<close>, whose \<open>catch\<close> replaces them.
\<close>

definition createCipheriv :: "jsstring \<Rightarrow> byte list \<Rightarrow> error + byte list \<times> byte list" where
  "createCipheriv key iv =
     (let keyBytes = utf8Encode key
      in if length keyBytes \<noteq> 32 then Inl (Error (lit ''Invalid key length''))
         else if length iv \<noteq> 16 then Inl (Error (lit ''Invalid initialization vector''))
         else Inr (keyBytes, iv))"

definition xorBytes :: "byte list \<Rightarrow> byte list \<Rightarrow> byte list" where
  "xorBytes a b = map (\<lambda>(x, y). x XOR y) (zip a b)"

text \<open>PKCS#7 padding: between 1 and 16 bytes, each holding their number.\<close>

definition pkcs7Pad :: "byte list \<Rightarrow> byte list" where
  "pkcs7Pad bs = (let n = 16 - length bs mod 16 in bs @ replicate n (of_nat n))"

definition pkcs7Unpad :: "byte list \<Rightarrow> error + byte list" where
  "pkcs7Unpad bs =
     (let n = unat (last bs)
      in if 1 \<le> n \<and> n \<le> 16 \<and> drop (length bs - n) bs = replicate n (last bs)
         then Inr (take (length bs - n) bs)
         else Inl (Error (lit ''bad decrypt'')))"

function chop16 :: "byte list \<Rightarrow> byte list list" where
  "chop16 bs = (if bs = [] then [] else take 16 bs # chop16 (drop 16 bs))"
  by pat_completeness auto
termination
  by (relation "measure length") auto

declare chop16.simps [simp del]

text \<open>Cipher block chaining: each block is combined with the ciphertext block before it,
  the first one with the IV.\<close>

fun cbcEncrypt :: "(byte list \<Rightarrow> byte list) \<Rightarrow> byte list \<Rightarrow> byte list list \<Rightarrow> byte list list" where
  "cbcEncrypt E prev [] = []"
| "cbcEncrypt E prev (p # ps) = (let c = E (xorBytes p prev) in c # cbcEncrypt E c ps)"

fun cbcDecrypt :: "(byte list \<Rightarrow> byte list) \<Rightarrow> byte list \<Rightarrow> byte list list \<Rightarrow> byte list list" where
  "cbcDecrypt D prev [] = []"
| "cbcDecrypt D prev (c # cs) = xorBytes (D c) prev # cbcDecrypt D c cs"

text \<open>\<open>cipher.update(text, 'utf8', 'hex') + cipher.final('hex')\<close>\<close>

definition cipherUpdateFinal :: "host \<Rightarrow> byte list \<times> byte list \<Rightarrow> jsstring \<Rightarrow> jsstring" where
  "cipherUpdateFinal H cipher text =
     (case cipher of
        (keyBytes, iv) \<Rightarrow>
          toHex (concat (cbcEncrypt (aesEncryptBlock H keyBytes) iv
                           (chop16 (pkcs7Pad (utf8Encode text))))))"

text \<open>\<open>decipher.update(encryptedHex, 'hex', 'utf8') + decipher.final('utf8')\<close>: \<open>update\<close>
  refuses a hexadecimal string of odd length, \<open>final\<close> a ciphertext that is empty or not a
  whole number of blocks, and a padding that is not PKCS#7.\<close>

definition decipherUpdateFinal ::
  "host \<Rightarrow> byte list \<times> byte list \<Rightarrow> jsstring \<Rightarrow> error + jsstring" where
  "decipherUpdateFinal H decipher encryptedHex =
     (case decipher of
        (keyBytes, iv) \<Rightarrow>
          if odd (length encryptedHex) then
            Inl (Error (lit ''The argument '' @ [0x27] @ lit ''encoding'' @ [0x27]
                        @ lit '' is invalid for data of length ''
                        @ showNat (length encryptedHex) @ lit ''. Received '' @ [0x27]
                        @ lit ''hex'' @ [0x27]))
          else
            (let encrypted = fromHex encryptedHex
             in if encrypted \<noteq> [] \<and> length encrypted mod 16 = 0 then
                  (case pkcs7Unpad (concat (cbcDecrypt (aesDecryptBlock H keyBytes) iv
                                              (chop16 encrypted))) of
                     Inl e \<Rightarrow> Inl e
                   | Inr bytes \<Rightarrow> Inr (utf8Decode bytes))
                else Inl (Error (lit ''wrong final block length''))))"


section \<open>util/ApiKeyManager.ts\<close>

record ApiKeyManager =
  configPath :: path
  encryptionKey :: jsstring

text \<open>The shell command that asks macOS for the serial number of the hardware.\<close>

definition serialCommand :: jsstring where
  "serialCommand =
     lit ''system_profiler SPHardwareDataType | grep '' @ [0x22] @ lit ''Serial Number'' @ [0x22]"

text \<open>The \<open>switch\<close> of \<open>getSystemKey\<close>: the identifier of the machine, each branch with
  its own \<open>try\<close>/\<open>catch\<close>.\<close>

definition systemInfoOf :: "host \<Rightarrow> world \<Rightarrow> error + jsstring" where
  "systemInfoOf H w =
     (let platformType = platform H
      in if platformType = lit ''win32'' then
           tryCatch
             (let computerName = orElse (env H (lit ''COMPUTERNAME'')) (lit ''unknown'');
                  userName = orElse (env H (lit ''USERNAME'')) (lit ''unknown'')
              in Inr (computerName @ lit ''-'' @ userName @ lit ''-'' @ platformType))
             (\<lambda>e. Inr (lit ''windows-'' @ orElse (env H (lit ''USERNAME'')) (lit ''user'')))
         else if platformType = lit ''darwin'' then
           tryCatch
             (case execSync H serialCommand of
                Inl e \<Rightarrow> Inl e
              | Inr out \<Rightarrow>
                  (let serialNumber =
                         orElse (map_option trim (at (str_split 0x3A (trim out)) 1))
                                (lit ''unknown'')
                   in Inr (serialNumber @ lit ''-'' @ platformType)))
             (\<lambda>e. Inr (lit ''macos-'' @ orElse (env H (lit ''USER'')) (lit ''user'')))
         else if platformType = lit ''linux'' then
           tryCatch
             (if existsSync w (lit ''/etc/machine-id'') then
                (case readFileSync w (lit ''/etc/machine-id'') of
                   Inl e \<Rightarrow> Inl e
                 | Inr content \<Rightarrow>
                     (let machineId = trim content
                      in Inr (machineId @ lit ''-'' @ platformType)))
              else Inr (lit ''linux-'' @ orElse (env H (lit ''USER'')) (lit ''user'')))
             (\<lambda>e. Inr (lit ''linux-'' @ orElse (env H (lit ''USER'')) (lit ''user'')))
         else
           Inr (platformType @ lit ''-''
                @ orElse (env H (lit ''USER'')) (orElse (env H (lit ''USERNAME'')) (lit ''user''))))"

definition getSystemKey :: "host \<Rightarrow> world \<Rightarrow> error + jsstring" where
  "getSystemKey H w =
     tryCatch
       (case systemInfoOf H w of
          Inl e \<Rightarrow> Inl e
        | Inr systemInfo \<Rightarrow> Inr (substring0 32 (sha256hex H systemInfo)))
       (\<lambda>e. let fallback = platform H @ lit ''-''
                    @ orElse (env H (lit ''USER''))
                        (orElse (env H (lit ''USERNAME'')) (lit ''fallback''))
            in Inr (substring0 32 (sha256hex H fallback)))"

text \<open>\<open>encrypt\<close>; \<open>iv\<close> is what \<open>randomBytes(16)\<close> returned.\<close>

definition encrypt :: "host \<Rightarrow> ApiKeyManager \<Rightarrow> byte list \<Rightarrow> jsstring \<Rightarrow> error + jsstring" where
  "encrypt H m iv text =
     tryCatch
       (case createCipheriv (encryptionKey m) iv of
          Inl e \<Rightarrow> Inl e
        | Inr cipher \<Rightarrow>
            (let encrypted = cipherUpdateFinal H cipher text
             in Inr (toHex iv @ lit '':'' @ encrypted)))
       (\<lambda>e. Inl (Error (lit ''Erro ao criptografar a API key'')))"

text \<open>\<open>decrypt\<close>. A half that is undefined and a half that is the empty string are
  both falsy, and are both the empty string here. The error for a record without its two
  halves is thrown inside the \<open>try\<close> block, so the \<open>catch\<close> of the same function
  receives it.\<close>

definition decrypt :: "host \<Rightarrow> ApiKeyManager \<Rightarrow> jsstring \<Rightarrow> error + jsstring" where
  "decrypt H m encryptedText =
     tryCatch
       (let parts = str_split 0x3A encryptedText;
            ivHex = orElse (at parts 0) [];
            encryptedHex = orElse (at parts 1) []
        in if \<not> (truthy ivHex \<and> truthy encryptedHex) then
             Inl (Error (lit ''Formato de texto criptografado inv'' @ [0xE1] @ lit ''lido''))
           else
             (let iv = fromHex ivHex
              in case createCipheriv (encryptionKey m) iv of
                   Inl e \<Rightarrow> Inl e
                 | Inr decipher \<Rightarrow> decipherUpdateFinal H decipher encryptedHex))
       (\<lambda>e. Inl (Error (lit ''Erro ao descriptografar a API key - pode ter sido corrompida'')))"

definition hasApiKey :: "ApiKeyManager \<Rightarrow> world \<Rightarrow> bool" where
  "hasApiKey m w = existsSync w (configPath m)"

definition saveApiKey ::
  "host \<Rightarrow> ApiKeyManager \<Rightarrow> byte list \<Rightarrow> jsstring \<Rightarrow> world \<Rightarrow> (error + unit) \<times> world" where
  "saveApiKey H m iv apiKey w =
     (case (case encrypt H m iv apiKey of
              Inl e \<Rightarrow> Inl e
            | Inr encrypted \<Rightarrow> writeFileSync w (configPath m) encrypted) of
        Inr w' \<Rightarrow>
          (Inr (), print (Log ([0x2705] @ lit '' | API key salva com seguran'' @ [0xE7]
                               @ lit ''a!'')) w')
      | Inl e \<Rightarrow> (Inl (Error (lit ''Erro ao salvar API key: '' @ message e)), w))"

definition loadApiKey :: "host \<Rightarrow> ApiKeyManager \<Rightarrow> world \<Rightarrow> error + jsstring" where
  "loadApiKey H m w =
     (if \<not> hasApiKey m w then
        Inl (Error (lit ''API key n'' @ [0xE3]
                    @ lit ''o encontrada. Execute o setup primeiro.''))
      else
        tryCatch
          (case readFileSync w (configPath m) of
             Inl e \<Rightarrow> Inl e
           | Inr encrypted \<Rightarrow> decrypt H m encrypted)
          (\<lambda>e. Inl (Error (lit ''Erro ao carregar API key: '' @ message e))))"

text \<open>The constructor. \<open>join(homedir(), '.foxy-config.enc')\<close> is the home directory, a
  separator and the file name (a home directory without a trailing separator).\<close>

definition newApiKeyManager :: "host \<Rightarrow> world \<Rightarrow> error + ApiKeyManager" where
  "newApiKeyManager H w =
     (case getSystemKey H w of
        Inl e \<Rightarrow> Inl e
      | Inr key \<Rightarrow> Inr \<lparr>configPath = homedir H @ lit ''/.foxy-config.enc'',
                        encryptionKey = key\<rparr>)"


section \<open>util/managers/CacheController.ts\<close>

text \<open>
  A zod schema, as the cache uses it: \<open>safeParse\<close> (the parsed data on success) and, for
  a \<open>ZodDefault\<close> schema only, what calling its \<open>defaultValue()\<close> gives (a value or a
  throw).
\<close>

record schema =
  safeParse :: "json \<Rightarrow> json option"
  defaultValue :: "(error + json) option"

text \<open>
  The registry holds the schemas of its keys, the own properties of the object passed to
  the constructor. The lookup \<open>this.schemas[filename]\<close> of the code finds the members of
  \<open>Object.prototype\<close> too (\<open>toString\<close>, \<open>constructor\<close>), which are no keys of the registry
  and no schemas: for such a name the code throws a \<open>TypeError\<close> at its first
  \<open>safeParse\<close>, where a name that is found nowhere, and every name without a schema
  here, gets "Schema not found".
\<close>

record CacheController =
  cacheDir :: path
  schemas :: "jsstring \<rightharpoonup> schema"

text \<open>The constructor: \<open>resolve(cacheDir ?? './.cache', 'foxy_cache')\<close>, for a directory
  given as an absolute path. Directories are not part of the world, so
  \<open>ensureCacheDirExists\<close> has nothing to do.\<close>

definition newCacheController :: "(jsstring \<rightharpoonup> schema) \<Rightarrow> path \<Rightarrow> CacheController" where
  "newCacheController registry dir =
     \<lparr>cacheDir = dir @ lit ''/foxy_cache'', schemas = registry\<rparr>"

text \<open>\<open>resolve(this.cacheDir, `${filename}.json.cache`)\<close>\<close>

definition cacheFile :: "CacheController \<Rightarrow> jsstring \<Rightarrow> path" where
  "cacheFile C filename = cacheDir C @ lit ''/'' @ filename @ lit ''.json.cache''"

definition saveCache ::
  "host \<Rightarrow> CacheController \<Rightarrow> jsstring \<Rightarrow> json \<Rightarrow> world \<Rightarrow> (error + unit) \<times> world" where
  "saveCache H C filename data w =
     (case schemas C filename of
        None \<Rightarrow> (Inl (Error (lit ''Schema not found for key: '' @ filename)), w)
      | Some schema \<Rightarrow>
          (let w1 = (if safeParse schema data = None
                     then print (Warn (lit ''WARNING: Data being saved for '' @ [0x27] @ filename
                                       @ [0x27]
                                       @ lit '' does not validate against the schema. Errors:'')) w
                     else w);
               filePath = cacheFile C filename
           in case writeFileSync w1 filePath (JSON_stringify H data) of
                Inl e \<Rightarrow>
                  (Inl (Error (lit ''Failed to save cache '' @ [0x27] @ filename @ [0x27]
                               @ lit '': '' @ message e)), w1)
              | Inr w2 \<Rightarrow> (Inr (), w2)))"

text \<open>\<open>this.saveCache(filename, value); return value;\<close>\<close>

definition saveAndReturn ::
  "host \<Rightarrow> CacheController \<Rightarrow> jsstring \<Rightarrow> json \<Rightarrow> world \<Rightarrow> (error + json) \<times> world" where
  "saveAndReturn H C filename v w =
     (case saveCache H C filename v w of
        (Inl e, w') \<Rightarrow> (Inl e, w')
      | (Inr u, w') \<Rightarrow> (Inr v, w'))"

text \<open>The default in force: the one passed or, when none is passed and the schema is a
  \<open>ZodDefault\<close>, the one its \<open>defaultValue()\<close> returns; a throw there is swallowed.\<close>

definition effectiveDefaultValue :: "schema \<Rightarrow> json option \<Rightarrow> json option" where
  "effectiveDefaultValue schema dflt =
     (case dflt of
        Some d \<Rightarrow> Some d
      | None \<Rightarrow>
          (case defaultValue schema of
             Some (Inr v) \<Rightarrow> Some v
           | Some (Inl e) \<Rightarrow> None
           | None \<Rightarrow> None))"

text \<open>The \<open>try\<close> block of \<open>loadCache\<close>, entered when the file exists.\<close>

definition loadExisting ::
  "host \<Rightarrow> CacheController \<Rightarrow> jsstring \<Rightarrow> schema \<Rightarrow> json option \<Rightarrow> world
     \<Rightarrow> (error + json) \<times> world" where
  "loadExisting H C filename schema effective w =
     (case readFileSync w (cacheFile C filename) of
        Inl e \<Rightarrow> (Inl e, w)
      | Inr rawData \<Rightarrow>
          (case JSON_parse H rawData of
             Inl e \<Rightarrow> (Inl e, w)
           | Inr parsed \<Rightarrow>
               (case safeParse schema parsed of
                  None \<Rightarrow>
                    (case effective of
                       Some d \<Rightarrow> saveAndReturn H C filename d w
                     | None \<Rightarrow>
                         (Inl (Error (lit ''Error validating cache '' @ [0x27] @ filename @ [0x27]
                            @ lit '' and no default value was provided or defined in the schema.'')),
                          w))
                | Some data \<Rightarrow> (Inr data, w))))"

definition loadCache ::
  "host \<Rightarrow> CacheController \<Rightarrow> jsstring \<Rightarrow> json option \<Rightarrow> world \<Rightarrow> (error + json) \<times> world" where
  "loadCache H C filename dflt w =
     (case schemas C filename of
        None \<Rightarrow> (Inl (Error (lit ''Schema not found for key: '' @ filename)), w)
      | Some schema \<Rightarrow>
          (let effective = effectiveDefaultValue schema dflt
           in if existsSync w (cacheFile C filename) then
                (case loadExisting H C filename schema effective w of
                   (Inr v, w') \<Rightarrow> (Inr v, w')
                 | (Inl err, w') \<Rightarrow>
                     (case effective of
                        Some d \<Rightarrow> saveAndReturn H C filename d w'
                      | None \<Rightarrow>
                          (Inl (Error (lit ''Error processing cache '' @ [0x27] @ filename @ [0x27]
                                       @ lit '': '' @ message err)), w')))
              else
                (case effective of
                   Some d \<Rightarrow> saveAndReturn H C filename d w
                 | None \<Rightarrow>
                     (Inl (Error (lit ''Cache '' @ [0x27] @ filename @ [0x27]
                        @ lit '' not found and no default value was provided or defined in the schema.'')),
                      w))))"

definition hasExistingCache :: "CacheController \<Rightarrow> jsstring \<Rightarrow> world \<Rightarrow> bool" where
  "hasExistingCache C filename w = existsSync w (cacheFile C filename)"

definition createCache ::
  "host \<Rightarrow> CacheController \<Rightarrow> jsstring \<Rightarrow> json option \<Rightarrow> world \<Rightarrow> (error + json) \<times> world" where
  "createCache H C filename dflt w =
     (case schemas C filename of
        None \<Rightarrow> (Inl (Error (lit ''Schema not found for key: '' @ filename)), w)
      | Some schema \<Rightarrow>
          (case effectiveDefaultValue schema dflt of
             None \<Rightarrow>
               (Inl (Error (lit ''No default value provided or defined in schema for ''
                            @ [0x27] @ filename @ [0x27])), w)
           | Some valueToSave \<Rightarrow> saveAndReturn H C filename valueToSave w))"


section \<open>util/types/Settings.ts\<close>

text \<open>\<open>z.object({ instrutor: z.enum(['chat_mode', 'normal']) })\<close>: an object whose
  \<open>instrutor\<close> is one of the two strings; the data parsed keeps that property only. It is
  not a \<open>ZodDefault\<close>.\<close>

definition SettingsSchema :: schema where
  "SettingsSchema =
     \<lparr>safeParse = (\<lambda>v.
         case v of
           JObj props \<Rightarrow>
             (case map_of props (lit ''instrutor'') of
                Some (JStr s) \<Rightarrow>
                  if s = lit ''chat_mode'' \<or> s = lit ''normal''
                  then Some (JObj [(lit ''instrutor'', JStr s)])
                  else None
              | _ \<Rightarrow> None)
         | _ \<Rightarrow> None),
      defaultValue = None\<rparr>"


section \<open>util/ApiKeyManager.ts: the interactive setup\<close>

text \<open>\<open>s.toLowerCase()\<close> on the letters A to Z. No other character becomes \<open>y\<close>, \<open>e\<close>
  or \<open>s\<close> in lower case, so comparing the result with \<open>'y'\<close> and \<open>'yes'\<close> is exact.\<close>

definition toLowerCase :: "jsstring \<Rightarrow> jsstring" where
  "toLowerCase s = map (\<lambda>c. if 0x41 \<le> c \<and> c \<le> 0x5A then c + 0x20 else c) s"

definition startsWith :: "jsstring \<Rightarrow> jsstring \<Rightarrow> bool" where
  "startsWith s prefix \<longleftrightarrow> take (length prefix) s = prefix"

text \<open>\<open>promptForApiKey\<close>; \<open>apiKey\<close> and \<open>confirm\<close> are what the operator answers to the
  two questions (the second is only asked for a key without the \<open>AIza\<close> prefix).\<close>

definition promptForApiKey :: "jsstring \<Rightarrow> jsstring \<Rightarrow> world \<Rightarrow> (error + jsstring) \<times> world" where
  "promptForApiKey apiKey confirm w =
     (let w1 = print (Log ([0x0A, 0xD83E, 0xDD8A] @ lit '' | Bem-vindo ao Foxy!'')) w;
          w2 = print (Log ([0xD83D, 0xDCDD] @ lit '' | Para come'' @ [0xE7]
                           @ lit ''ar, preciso da sua API key do Google Gemini.'')) w1;
          w3 = print (Log ([0xD83D, 0xDCA1] @ lit '' | Voc'' @ [0xEA]
                           @ lit '' pode obter uma em: https://makersuite.google.com/app/apikey''
                           @ [0x0A])) w2
      in if \<not> truthy apiKey \<or> length (trim apiKey) = 0 then
           (Inl (Error (lit ''API key n'' @ [0xE3] @ lit ''o pode estar vazia'')), w3)
         else if \<not> startsWith (trim apiKey) (lit ''AIza'') then
           (let w4 = print (Log ([0x26A0, 0xFE0F] @ lit ''  | A API key n'' @ [0xE3]
                                 @ lit ''o parece v'' @ [0xE1] @ lit ''lida (deve come'' @ [0xE7]
                                 @ lit ''ar com '' @ [0x22] @ lit ''AIza'' @ [0x22] @ lit '')'')) w3
            in if toLowerCase confirm \<noteq> lit ''y'' \<and> toLowerCase confirm \<noteq> lit ''yes'' then
                 (Inl (Error (lit ''Configura'' @ [0xE7, 0xE3] @ lit ''o cancelada pelo usu''
                              @ [0xE1] @ lit ''rio'')), w4)
               else (Inr (trim apiKey), w4))
         else (Inr (trim apiKey), w3))"

definition setupApiKey ::
  "host \<Rightarrow> ApiKeyManager \<Rightarrow> byte list \<Rightarrow> jsstring \<Rightarrow> jsstring \<Rightarrow> world
     \<Rightarrow> (error + jsstring) \<times> world" where
  "setupApiKey H m iv answer confirm w =
     (case promptForApiKey answer confirm w of
        (Inl e, w1) \<Rightarrow> (Inl e, w1)
      | (Inr apiKey, w1) \<Rightarrow>
          (case saveApiKey H m iv apiKey w1 of
             (Inl e, w2) \<Rightarrow> (Inl e, w2)
           | (Inr u, w2) \<Rightarrow> (Inr apiKey, w2)))"


section \<open>util/FoxyClient.ts\<close>

text \<open>The client object. \<open>GGProfile\<close> is the Gemini client when there is one, known by
  the API key it was made with.\<close>

record FoxyClient =
  GGProfile :: "jsstring option"
  CacheManager :: CacheController
  apiKeyManager :: ApiKeyManager
  isInitialized :: bool

definition settingsRegistry :: "jsstring \<rightharpoonup> schema" where
  "settingsRegistry = [lit ''settings'' \<mapsto> SettingsSchema]"

definition newFoxyClient :: "host \<Rightarrow> world \<Rightarrow> error + FoxyClient" where
  "newFoxyClient H w =
     (case newApiKeyManager H w of
        Inl e \<Rightarrow> Inl e
      | Inr m \<Rightarrow>
          Inr \<lparr>GGProfile = None,
               CacheManager = newCacheController settingsRegistry (lit ''/tmp''),
               apiKeyManager = m,
               isInitialized = False\<rparr>)"

text \<open>The cache file of the client's \<open>settings\<close> key.\<close>

definition settingsFile :: path where
  "settingsFile = cacheFile (newCacheController settingsRegistry (lit ''/tmp'')) (lit ''settings'')"

text \<open>\<open>ensureInitialized\<close>; \<open>iv\<close>, \<open>answer\<close> and \<open>confirm\<close> are the random bytes and the
  operator's answers a setup would use.\<close>

definition ensureInitialized ::
  "host \<Rightarrow> byte list \<Rightarrow> jsstring \<Rightarrow> jsstring \<Rightarrow> FoxyClient \<Rightarrow> world
     \<Rightarrow> (error + unit) \<times> FoxyClient \<times> world" where
  "ensureInitialized H iv answer confirm c w =
     (if isInitialized c \<and> GGProfile c \<noteq> None then (Inr (), c, w)
      else
        (let (r, w') =
               (if hasApiKey (apiKeyManager c) w then
                  (case loadApiKey H (apiKeyManager c) w of
                     Inr apiKey \<Rightarrow> (Inr apiKey, w)
                   | Inl err \<Rightarrow>
                       (let w1 = print (ConsoleError ([0x274C]
                                          @ lit '' | Erro ao carregar API key:'')) w;
                            w2 = print (Log ([0xD83D, 0xDD27]
                                          @ lit '' | Vamos configurar uma nova API key...''
                                          @ [0x0A])) w1
                        in setupApiKey H (apiKeyManager c) iv answer confirm w2))
                else setupApiKey H (apiKeyManager c) iv answer confirm w)
         in case r of
              Inl e \<Rightarrow> (Inl e, c, w')
            | Inr apiKey \<Rightarrow> (Inr (), c\<lparr>GGProfile := Some apiKey, isInitialized := True\<rparr>, w')))"

text \<open>\<open>v.key\<close> for a JSON value: a \<open>TypeError\<close> on \<open>null\<close>, undefined on a missing
  property and on a value that is not an object.\<close>

definition getProp :: "json \<Rightarrow> jsstring \<Rightarrow> error + json option" where
  "getProp v key =
     (case v of
        JNull \<Rightarrow> Inl (Error (lit ''Cannot read properties of null (reading '' @ [0x27] @ key
                              @ [0x27] @ lit '')''))
      | JObj props \<Rightarrow> Inr (map_of props key)
      | _ \<Rightarrow> Inr None)"

record response =
  responded :: "error + jsstring"
  date :: nat

text \<open>\<open>responder\<close>. The promise \<open>responded\<close> is not awaited here: a failure of the remote
  call is the value of \<open>responded\<close>, not a throw of \<open>responder\<close>.\<close>

definition responder ::
  "host \<Rightarrow> byte list \<Rightarrow> jsstring \<Rightarrow> jsstring \<Rightarrow> FoxyClient \<Rightarrow> jsstring \<Rightarrow> world
     \<Rightarrow> (error + response) \<times> FoxyClient \<times> world" where
  "responder H iv answer confirm c0 text w0 =
     (case ensureInitialized H iv answer confirm c0 w0 of
        (Inl e, c, w) \<Rightarrow> (Inl e, c, w)
      | (Inr u, c, w) \<Rightarrow>
          (case GGProfile c of
             None \<Rightarrow> (Inl (Error (lit ''Cliente n'' @ [0xE3] @ lit ''o inicializado'')), c, w)
           | Some apiKey \<Rightarrow>
               (case (if \<not> hasExistingCache (CacheManager c) (lit ''settings'') w
                      then createCache H (CacheManager c) (lit ''settings'')
                             (Some (JObj [(lit ''instrutor'', JStr (lit ''normal''))])) w
                      else (Inr JNull, w)) of
                  (Inl e, w1) \<Rightarrow> (Inl e, c, w1)
                | (Inr created, w1) \<Rightarrow>
                    (case loadCache H (CacheManager c) (lit ''settings'') None w1 of
                       (Inl e, w2) \<Rightarrow> (Inl e, c, w2)
                     | (Inr cache, w2) \<Rightarrow>
                         (case getProp cache (lit ''instrutor'') of
                            Inl e \<Rightarrow> (Inl e, c, w2)
                          | Inr instrutor \<Rightarrow>
                              (let chat_mode = (instrutor = Some (JStr (lit ''chat_mode'')))
                               in case PromptToGenerate H chat_mode text of
                                    Inl e \<Rightarrow> (Inl e, c, w2)
                                  | Inr prompt \<Rightarrow>
                                      (let resp = generate H apiKey prompt
                                       in (Inr \<lparr>responded = resp, date = now H\<rparr>, c, w2))))))))"


section \<open>util/config/FoxyConfig.ts: loadConfig\<close>

text \<open>A value of the \<open>FoxyConfig\<close> interface as the object it is at run time.\<close>

definition gitObject :: "GitConfig \<Rightarrow> json" where
  "gitObject g =
     JObj [(lit ''autoAdd'', JBool (autoAdd g)),
           (lit ''confirmBeforeCommit'', JBool (confirmBeforeCommit g)),
           (lit ''includeStats'', JBool (includeStats g)),
           (lit ''autoCommit'', JBool (autoCommit g))]"

definition configObject :: "FoxyConfig \<Rightarrow> json" where
  "configObject cfg =
     JObj [(lit ''language'', JStr (case language cfg of pt \<Rightarrow> lit ''pt'' | en \<Rightarrow> lit ''en'')),
           (lit ''conventionalCommits'', JBool (conventionalCommits cfg)),
           (lit ''commitStyle'',
              JStr (case commitStyle cfg of
                      conventional \<Rightarrow> lit ''conventional''
                    | simple \<Rightarrow> lit ''simple''
                    | detailed \<Rightarrow> lit ''detailed'')),
           (lit ''maxMessageLength'', JNum (maxMessageLength cfg)),
           (lit ''includeScope'', JBool (includeScope cfg)),
           (lit ''includeBreakingChanges'', JBool (includeBreakingChanges cfg)),
           (lit ''emojis'', JBool (emojis cfg)),
           (lit ''git'', gitObject (git cfg))]"

text \<open>\<open>obj[key] = v\<close> on the properties of an object: in place when the key is there, at
  the end otherwise.\<close>

fun setProp :: "jsstring \<Rightarrow> json \<Rightarrow> (jsstring \<times> json) list \<Rightarrow> (jsstring \<times> json) list" where
  "setProp key v [] = [(key, v)]"
| "setProp key v ((k, x) # props) =
     (if k = key then (key, v) # props else (k, x) # setProp key v props)"

text \<open>The own enumerable properties a spread \<open>...v\<close> copies: those of an object, the
  indices of an array and of a string, none of \<open>null\<close>, a boolean or a number.\<close>

definition ownProps :: "json \<Rightarrow> (jsstring \<times> json) list" where
  "ownProps v =
     (case v of
        JObj props \<Rightarrow> props
      | JArr xs \<Rightarrow> zip (map showNat [0..<length xs]) xs
      | JStr s \<Rightarrow> zip (map showNat [0..<length s]) (map (\<lambda>ch. JStr [ch]) s)
      | _ \<Rightarrow> [])"

text \<open>\<open>{ ...target, ...v }\<close> continued: the properties of \<open>v\<close> set one by one.\<close>

definition spread :: "(jsstring \<times> json) list \<Rightarrow> json \<Rightarrow> (jsstring \<times> json) list" where
  "spread target v = foldl (\<lambda>acc (k, x). setProp k x acc) target (ownProps v)"

text \<open>Truthiness of a value that may be undefined.\<close>

definition truthyValue :: "json option \<Rightarrow> bool" where
  "truthyValue v =
     (case v of
        None \<Rightarrow> False
      | Some JNull \<Rightarrow> False
      | Some (JBool b) \<Rightarrow> b
      | Some (JNum n) \<Rightarrow> n \<noteq> 0
      | Some (JStr s) \<Rightarrow> s \<noteq> []
      | Some (JArr xs) \<Rightarrow> True
      | Some (JObj props) \<Rightarrow> True)"

text \<open>The constructor of \<open>FoxyConfigManager\<close>: \<open>join(baseDir, '.foxycfg')\<close>.\<close>

definition foxycfgPath :: "path \<Rightarrow> path" where
  "foxycfgPath baseDir = baseDir @ lit ''/.foxycfg''"

definition configWarning :: console_line where
  "configWarning =
     Warn ([0x26A0, 0xFE0F] @ lit '' | Erro ao carregar .foxycfg, usando configura''
           @ [0xE7, 0xF5] @ lit ''es padr'' @ [0xE3] @ lit ''o'')"

text \<open>The \<open>try\<close> block of \<open>loadConfig\<close>.\<close>

definition readAndMerge :: "host \<Rightarrow> path \<Rightarrow> world \<Rightarrow> error + json" where
  "readAndMerge H cfgPath w =
     (case readFileSync w cfgPath of
        Inl e \<Rightarrow> Inl e
      | Inr configContent \<Rightarrow>
          (case JSON_parse H configContent of
             Inl e \<Rightarrow> Inl e
           | Inr userConfig \<Rightarrow>
               (let mergedConfig = spread (spread [] (configObject DEFAULT_CONFIG)) userConfig
                in case getProp userConfig (lit ''git'') of
                     Inl e \<Rightarrow> Inl e
                   | Inr userGit \<Rightarrow>
                       if truthyValue userGit then
                         (case userGit of
                            Some g \<Rightarrow>
                              Inr (JObj (setProp (lit ''git'')
                                     (JObj (spread (spread [] (gitObject (git DEFAULT_CONFIG))) g))
                                     mergedConfig))
                          | None \<Rightarrow> Inr (JObj mergedConfig))
                       else Inr (JObj mergedConfig))))"

definition loadConfig :: "host \<Rightarrow> path \<Rightarrow> world \<Rightarrow> json \<times> world" where
  "loadConfig H cfgPath w =
     (if \<not> existsSync w cfgPath then (configObject DEFAULT_CONFIG, w)
      else
        (case readAndMerge H cfgPath w of
           Inr mergedConfig \<Rightarrow> (mergedConfig, w)
         | Inl err \<Rightarrow> (configObject DEFAULT_CONFIG, print configWarning w)))"


section \<open>The contract of loadConfig, in the words of the specification\<close>

text \<open>
  The specification describes the value \<open>loadConfig\<close> returns for a file that parses to
  \<open>u\<close>: the top-level keys of the file set over the defaults (a shallow merge) and, for
  the one nested group \<open>git\<close>, the keys of the file's group set over the default group.
  The group of a file without a \<open>git\<close> key has no keys.
\<close>

definition spec_shallowMerge :: "json \<Rightarrow> json \<Rightarrow> (jsstring \<times> json) list" where
  "spec_shallowMerge defaults over = spread (ownProps defaults) over"

definition spec_fileGitGroup :: "json \<Rightarrow> json" where
  "spec_fileGitGroup u =
     (case u of
        JObj props \<Rightarrow> (case map_of props (lit ''git'') of Some g \<Rightarrow> g | None \<Rightarrow> JObj [])
      | _ \<Rightarrow> JObj [])"

definition spec_mergedConfig :: "json \<Rightarrow> json" where
  "spec_mergedConfig u =
     JObj (setProp (lit ''git'')
             (JObj (spec_shallowMerge (gitObject (git DEFAULT_CONFIG)) (spec_fileGitGroup u)))
             (spec_shallowMerge (configObject DEFAULT_CONFIG) u))"


section \<open>A small host for running the model\<close>

text \<open>
  A Linux host whose hash returns 64 equal hexadecimal digits, whose block cipher adds
  the first 16 bytes of the key to the block bit by bit (and so is its own inverse), and
  whose JSON functions know a few texts. The theorems below hold for every host; this
  one runs them.
\<close>

definition jsonTable :: "(jsstring \<times> json) list" where
  "jsonTable =
     [(lit ''null'', JNull),
      (lit ''{'' @ [0xA] @ lit ''  '' @ [0x22] @ lit ''instrutor'' @ [0x22] @ lit '': '' @ [0x22] @ lit ''invalid'' @ [0x22, 0xA] @ lit ''}'',
       JObj [(lit ''instrutor'', JStr (lit ''invalid''))]),
      (lit ''{'' @ [0xA] @ lit ''  '' @ [0x22] @ lit ''instrutor'' @ [0x22] @ lit '': '' @ [0x22] @ lit ''normal'' @ [0x22, 0xA] @ lit ''}'',
       JObj [(lit ''instrutor'', JStr (lit ''normal''))]),
      (lit ''{'' @ [0x22] @ lit ''emojis'' @ [0x22] @ lit '':false,'' @ [0x22] @ lit ''git'' @ [0x22] @ lit '':{'' @ [0x22] @ lit ''autoCommit'' @ [0x22] @ lit '':true}}'',
       JObj [(lit ''emojis'', JBool False),
             (lit ''git'', JObj [(lit ''autoCommit'', JBool True)])]),
      (lit ''{'' @ [0x22] @ lit ''git'' @ [0x22] @ lit '':null}'',
       JObj [(lit ''git'', JNull)])]"

definition testHost :: host where
  "testHost =
     \<lparr>platform = lit ''linux'',
      homedir = lit ''/home/dev'',
      env = [lit ''USER'' \<mapsto> lit ''dev''],
      execSync = (\<lambda>cmd. Inl (Error (lit ''command not found''))),
      sha256hex = (\<lambda>s. replicate 64 (hexDigit (length s mod 16))),
      aesEncryptBlock = (\<lambda>key block. xorBytes block (take 16 key)),
      aesDecryptBlock = (\<lambda>key block. xorBytes block (take 16 key)),
      JSON_parse = (\<lambda>s.
         case map_of jsonTable s of
           Some v \<Rightarrow> Inr v
         | None \<Rightarrow> Inl (Error (lit ''Unexpected token''))),
      JSON_stringify = (\<lambda>v.
         case map_of (map (\<lambda>(s, x). (x, s)) jsonTable) v of
           Some s \<Rightarrow> s
         | None \<Rightarrow> lit ''null''),
      generate = (\<lambda>apiKey prompt. Inl (Error (lit ''Failed to generate text: fetch failed''))),
      PromptToGenerate = (\<lambda>chat question. Inr question),
      now = 0\<rparr>"

definition emptyWorld :: world where
  "emptyWorld =
     \<lparr>files = Map.empty, readError = Map.empty, writeError = Map.empty, console = []\<rparr>"

definition testManager :: ApiKeyManager where
  "testManager = \<lparr>configPath = lit ''/home/dev/.foxy-config.enc'',
                   encryptionKey = lit ''99999999999999999999999999999999''\<rparr>"

definition testIV :: "byte list" where
  "testIV = [0x00, 0x11, 0x22, 0x33, 0x44, 0x55, 0x66, 0x77,
             0x88, 0x99, 0xAA, 0xBB, 0xCC, 0xDD, 0xEE, 0xFF]"


definition testCache :: CacheController where
  "testCache = newCacheController settingsRegistry (lit ''/tmp'')"

definition invalidSettings :: json where
  "invalidSettings = JObj [(lit ''instrutor'', JStr (lit ''invalid''))]"

definition normalSettings :: json where
  "normalSettings = JObj [(lit ''instrutor'', JStr (lit ''normal''))]"


definition testConfigText :: jsstring where
  "testConfigText =
     lit ''{'' @ [0x22] @ lit ''emojis'' @ [0x22] @ lit '':false,'' @ [0x22] @ lit ''git'' @ [0x22]
     @ lit '':{'' @ [0x22] @ lit ''autoCommit'' @ [0x22] @ lit '':true}}''"

definition gitNullConfigText :: jsstring where
  "gitNullConfigText = lit ''{'' @ [0x22] @ lit ''git'' @ [0x22] @ lit '':null}''"


section \<open>Properties of parseGitStatus\<close>

lemma foldl_classifyLine:
  "foldl classifyLine acc ls =
     \<lparr>added = added acc @ map (drop 3) (filter (\<lambda>l. 0x41 \<in> set (take 2 l)) ls),
      modified = modified acc @ map (drop 3) (filter (\<lambda>l. 0x4D \<in> set (take 2 l)) ls),
      deleted = deleted acc @ map (drop 3) (filter (\<lambda>l. 0x44 \<in> set (take 2 l)) ls)\<rparr>"
proof (induction ls arbitrary: acc)
  case Nil
  show ?case by simp
next
  case (Cons l ls)
  show ?case
    unfolding foldl_Cons Cons.IH
    by (simp add: classifyLine_def Let_def str_includes_def substring0_def substring_from_def)
qed

lemma statusLines_example:
  "statusLines (lit ''A  new.ts'' @ [0x0A] @ lit '' M old.ts'' @ [0x0A] @ lit ''D  gone.ts'')
     = [lit ''A  new.ts'', lit '' M old.ts'', lit ''D  gone.ts'']"
  by (simp add: statusLines_def lit_def truthy_def trim_def isWhiteSpace_def)

text \<open>
  Claim C7. The three status lines \<open>"A  new.ts"\<close>, \<open>" M old.ts"\<close>, \<open>"D  gone.ts"\<close>
  (joined by newlines, as \<open>git status --porcelain\<close> prints them) parse to
  added = ["new.ts"], modified = ["old.ts"], deleted = ["gone.ts"]. In general, over the
  non-blank lines of the input, a line goes to \<open>added\<close>, \<open>modified\<close>, \<open>deleted\<close> when its
  first two characters contain \<open>A\<close>, \<open>M\<close>, \<open>D\<close> respectively, and the path recorded is the
  line from its fourth character on.
\<close>

theorem parseGitStatus_classifies:
  "parseGitStatus (lit ''A  new.ts'' @ [0x0A] @ lit '' M old.ts'' @ [0x0A] @ lit ''D  gone.ts'')
     = \<lparr>added = [lit ''new.ts''], modified = [lit ''old.ts''], deleted = [lit ''gone.ts'']\<rparr>
   \<and> parseGitStatus status =
       \<lparr>added = map (drop 3) (filter (\<lambda>l. 0x41 \<in> set (take 2 l)) (statusLines status)),
        modified = map (drop 3) (filter (\<lambda>l. 0x4D \<in> set (take 2 l)) (statusLines status)),
        deleted = map (drop 3) (filter (\<lambda>l. 0x44 \<in> set (take 2 l)) (statusLines status))\<rparr>
   \<and> statusLines status = filter (\<lambda>l. trim l \<noteq> []) (str_split 0x0A status)"
proof -
  have general: "parseGitStatus s =
       \<lparr>added = map (drop 3) (filter (\<lambda>l. 0x41 \<in> set (take 2 l)) (statusLines s)),
        modified = map (drop 3) (filter (\<lambda>l. 0x4D \<in> set (take 2 l)) (statusLines s)),
        deleted = map (drop 3) (filter (\<lambda>l. 0x44 \<in> set (take 2 l)) (statusLines s))\<rparr>" for s
    by (simp add: parseGitStatus_def foldl_classifyLine)
  have example: "parseGitStatus (lit ''A  new.ts'' @ [0x0A] @ lit '' M old.ts'' @ [0x0A] @ lit ''D  gone.ts'')
     = \<lparr>added = [lit ''new.ts''], modified = [lit ''old.ts''], deleted = [lit ''gone.ts'']\<rparr>"
    unfolding general statusLines_example by (simp add: lit_def)
  have lines: "statusLines status = filter (\<lambda>l. trim l \<noteq> []) (str_split 0x0A status)"
    by (simp add: statusLines_def truthy_def)
  from example general lines show ?thesis by blast
qed


section \<open>Properties of the commit-message generator\<close>

lemma generateCommitMessage_cases:
  "generateCommitMessage cfg remote changes =
     (case remote (commitPrompt cfg changes) of
        Inr msg \<Rightarrow> Inr (cleanMessage cfg msg)
      | Inl err \<Rightarrow> Inr (getFallbackMessage cfg changes))"
  by (simp add: generateCommitMessage_def commitPrompt_def generateConventionalCommit_def
      generateSimpleCommit_def Let_def)

lemma cleanMessage_length:
  "int (length (cleanMessage cfg msg)) \<le> max 0 (maxMessageLength cfg)"
  by (simp add: cleanMessage_def substring0_def)

lemma cleanMessage_chars:
  "0x27 \<notin> set (cleanMessage cfg msg)"
  "0x22 \<notin> set (cleanMessage cfg msg)"
  "0x0A \<notin> set (cleanMessage cfg msg)"
  by (auto simp: cleanMessage_def substring0_def dest!: in_set_takeD)

lemma showNat_length: "1 \<le> length (showNat n)"
  by (subst showNat.simps) simp

lemma getFallbackMessage_length: "21 \<le> length (getFallbackMessage cfg changes)"
  using showNat_length
    [of "length (added changes) + length (modified changes) + length (deleted changes)"]
  by (simp add: getFallbackMessage_def Let_def lit_def)

text \<open>
  Claim C6. When the remote generation call fails, \<open>generateCommitMessage\<close> does not
  fail: it returns the fallback message. That message is the same for any other changes
  with the same three counts and any other config with the same \<open>emojis\<close> and
  \<open>conventionalCommits\<close> flags, so it is computed from the counts and the two flags only.
\<close>

theorem generateCommitMessage_fallback:
  assumes "remote (commitPrompt cfg changes) = Inl err"
    and "length (added changes') = length (added changes)"
    and "length (modified changes') = length (modified changes)"
    and "length (deleted changes') = length (deleted changes)"
    and "emojis cfg' = emojis cfg"
    and "conventionalCommits cfg' = conventionalCommits cfg"
  shows "generateCommitMessage cfg remote changes = Inr (getFallbackMessage cfg changes)
       \<and> getFallbackMessage cfg' changes' = getFallbackMessage cfg changes"
  using assms by (simp add: generateCommitMessage_cases getFallbackMessage_def Let_def)

theorem generateCommitMessage_fallback_witness:
  "generateCommitMessage DEFAULT_CONFIG
      (\<lambda>p. Inl (Error (lit ''Failed to generate text: fetch failed'')))
      \<lparr>added = [lit ''a.ts'', lit ''b.ts''], modified = [lit ''c.ts''], deleted = []\<rparr>
     = Inr ([0x2728] @ lit '' feat: adiciona 3 arquivo(s)'')
   \<and> getFallbackMessage (DEFAULT_CONFIG\<lparr>language := en, maxMessageLength := 10\<rparr>)
        \<lparr>added = [lit ''x'', lit ''y''], modified = [lit ''z''], deleted = []\<rparr>
     = [0x2728] @ lit '' feat: adiciona 3 arquivo(s)''"
proof -
  let ?cfg = "DEFAULT_CONFIG"
  let ?cfg' = "DEFAULT_CONFIG\<lparr>language := en, maxMessageLength := 10\<rparr>"
  let ?ch = "\<lparr>added = [lit ''a.ts'', lit ''b.ts''], modified = [lit ''c.ts''], deleted = []\<rparr>"
  let ?ch' = "\<lparr>added = [lit ''x'', lit ''y''], modified = [lit ''z''], deleted = []\<rparr>"
  let ?r = "\<lambda>p::jsstring.
     Inl (Error (lit ''Failed to generate text: fetch failed'')) :: error + jsstring"
  have v: "getFallbackMessage ?cfg ?ch = [0x2728] @ lit '' feat: adiciona 3 arquivo(s)''"
    by (simp add: getFallbackMessage_def DEFAULT_CONFIG_def lit_def showNat.simps)
  have "generateCommitMessage ?cfg ?r ?ch = Inr (getFallbackMessage ?cfg ?ch)
       \<and> getFallbackMessage ?cfg' ?ch' = getFallbackMessage ?cfg ?ch"
    by (rule generateCommitMessage_fallback) (simp_all add: DEFAULT_CONFIG_def)
  with v show ?thesis by simp
qed

text \<open>
  Claim C10, as the code has it. When the remote call succeeds with the text \<open>msg\<close>,
  \<open>generateCommitMessage\<close> returns \<open>cleanMessage msg\<close>, which holds no single quote, no
  double quote and no newline, and whose length is at most \<open>maxMessageLength\<close> when that
  is not negative and 0 otherwise. When the remote call fails, the fallback message is
  returned as it is; it has at least 21 characters whatever \<open>maxMessageLength\<close> is, so the
  bound does not apply to it.
\<close>

theorem generateCommitMessage_cleaned:
  assumes "remote (commitPrompt cfg changes) = Inr msg"
  shows "generateCommitMessage cfg remote changes = Inr (cleanMessage cfg msg)
       \<and> int (length (cleanMessage cfg msg)) \<le> max 0 (maxMessageLength cfg)
       \<and> 0x27 \<notin> set (cleanMessage cfg msg)
       \<and> 0x22 \<notin> set (cleanMessage cfg msg)
       \<and> 0x0A \<notin> set (cleanMessage cfg msg)
       \<and> generateCommitMessage cfg (\<lambda>p. Inl err) changes = Inr (getFallbackMessage cfg changes)
       \<and> 21 \<le> length (getFallbackMessage cfg changes)"
  using assms
  by (simp add: generateCommitMessage_cases cleanMessage_length cleanMessage_chars
      getFallbackMessage_length)

theorem generateCommitMessage_cleaned_witness:
  "generateCommitMessage DEFAULT_CONFIG
      (\<lambda>p. Inr ([0x20, 0x22] @ lit ''feat: add '' @ [0x27] @ lit ''x'' @ [0x27, 0x0A]
                @ lit ''parser'' @ [0x22, 0x0A]))
      \<lparr>added = [lit ''a.ts''], modified = [], deleted = []\<rparr>
     = Inr (lit ''feat: add x parser'')
   \<and> int (length (lit ''feat: add x parser'')) \<le> max 0 (maxMessageLength DEFAULT_CONFIG)"
proof -
  let ?msg = "[0x20, 0x22] @ lit ''feat: add '' @ [0x27] @ lit ''x'' @ [0x27, 0x0A]
                @ lit ''parser'' @ [0x22, 0x0A]"
  let ?ch = "\<lparr>added = [lit ''a.ts''], modified = [], deleted = []\<rparr>"
  have c: "cleanMessage DEFAULT_CONFIG ?msg = lit ''feat: add x parser''"
    by (simp add: cleanMessage_def DEFAULT_CONFIG_def substring0_def trim_def
        isWhiteSpace_def lit_def)
  have "(\<lambda>p. Inr ?msg :: error + jsstring) (commitPrompt DEFAULT_CONFIG ?ch) = Inr ?msg"
    by simp
  from generateCommitMessage_cleaned [where cfg = DEFAULT_CONFIG and changes = ?ch
      and remote = "\<lambda>p. Inr ?msg" and msg = ?msg and err = "Error []", OF this] c
  show ?thesis
    by simp
qed

text \<open>
  The bound of claim C10 as it is stated, \<open>length \<le> maxMessageLength\<close>, fails for a
  negative \<open>maxMessageLength\<close>: \<open>substring(0, -1)\<close> is the empty string, of length 0.
\<close>

theorem generateCommitMessage_length_counterexample:
  "generateCommitMessage (DEFAULT_CONFIG\<lparr>maxMessageLength := - 1\<rparr>)
      (\<lambda>p. Inr (lit ''fix: typo''))
      \<lparr>added = [], modified = [lit ''a.ts''], deleted = []\<rparr> = Inr []
   \<and> \<not> int (length ([] :: jsstring))
         \<le> maxMessageLength (DEFAULT_CONFIG\<lparr>maxMessageLength := - 1\<rparr>)"
  by (simp add: generateCommitMessage_cases cleanMessage_def substring0_def)


section \<open>Properties of the secret store\<close>

lemma str_split_notin: "c \<notin> set xs \<Longrightarrow> str_split c xs = [xs]"
  by (induction xs) auto

lemma str_split_append:
  "c \<notin> set xs \<Longrightarrow> str_split c (xs @ c # ys) = xs # str_split c ys"
  by (induction xs) auto

lemma unat_hexDigit:
  "n < 16 \<Longrightarrow> unat (hexDigit n) = (if n < 10 then 48 + n else 87 + n)"
  unfolding hexDigit_def by (simp add: unat_of_nat del: of_nat_add)

lemma hexValue_hexDigit: "n < 16 \<Longrightarrow> hexValue (hexDigit n) = Some n"
  by (simp add: hexValue_def unat_hexDigit Let_def)

lemma hexDigit_not_colon: "n < 16 \<Longrightarrow> hexDigit n \<noteq> 0x3A"
proof
  assume "n < 16" and "hexDigit n = 0x3A"
  then have "unat (hexDigit n) = 58" by simp
  with \<open>n < 16\<close> show False by (simp add: unat_hexDigit split: if_splits)
qed

lemma byte_nibbles: "unat (b :: byte) div 16 < 16" "unat b mod 16 < 16"
  using unsigned_less [of b, where 'a = nat] by simp_all

lemma fromHex_toHex: "fromHex (toHex bs) = bs"
  by (induction bs) (simp_all add: toHex_def hexValue_hexDigit byte_nibbles)

lemma colon_notin_toHex: "0x3A \<notin> set (toHex bs)"
  using hexDigit_not_colon byte_nibbles by (auto simp: toHex_def)

lemma toHex_nonempty: "bs \<noteq> [] \<Longrightarrow> toHex bs \<noteq> []"
  by (cases bs) (simp_all add: toHex_def)

text \<open>Encoding a well-formed string as UTF-8 and decoding it gives the string back.\<close>

lemma unat_byte: "n < 256 \<Longrightarrow> unat (of_nat n :: byte) = n"
  by (simp add: unat_of_nat)

lemma unat_jschar: "n < 65536 \<Longrightarrow> unat (of_nat n :: jschar) = n"
  by (simp add: unat_of_nat)

lemma decode1:
  assumes "cp < 0x80"
  shows "utf8Decode (utf8Bytes cp @ rest) = codeUnits cp @ utf8Decode rest"
  using assms by (simp add: utf8Bytes_def codeUnits_def unat_byte del: of_nat_add)

lemma decode2:
  assumes "0x80 \<le> cp" and "cp < 0x800"
  shows "utf8Decode (utf8Bytes cp @ rest) = codeUnits cp @ utf8Decode rest"
proof -
  have q: "cp div 64 < 32" "2 \<le> cp div 64" using assms by simp_all
  have r: "cp mod 64 \<le> 63" using mod_less_divisor [of 64 cp] by linarith
  have b0: "unat (of_nat (0xC0 + cp div 64) :: byte) = 0xC0 + cp div 64"
    using q by (intro unat_byte) simp
  have b1: "unat (of_nat (0x80 + cp mod 64) :: byte) = 0x80 + cp mod 64"
    using r by (intro unat_byte) simp
  have v: "(0xC0 + cp div 64 - 0xC0) * 64 + (0x80 + cp mod 64 - 0x80) = cp" by simp
  show ?thesis
    using assms q r
    by (simp add: utf8Bytes_def b0 b1 isContinuation_def Let_def v del: of_nat_add)
qed

lemma decode3:
  assumes "0x800 \<le> cp" and "cp < 0x10000" and "\<not> (0xD800 \<le> cp \<and> cp \<le> 0xDFFF)"
  shows "utf8Decode (utf8Bytes cp @ rest) = codeUnits cp @ utf8Decode rest"
proof -
  define a where "a = cp div 4096"
  define b where "b = cp div 64 mod 64"
  define c where "c = cp mod 64"
  have a: "a < 16" using assms by (simp add: a_def)
  have b: "b \<le> 63" using mod_less_divisor [of 64 "cp div 64"] by (simp add: b_def)
  have c: "c \<le> 63" using mod_less_divisor [of 64 cp] by (simp add: c_def)
  have s1: "cp = (cp div 64) * 64 + c" by (simp add: c_def)
  have s2: "cp div 64 = (cp div 64 div 64) * 64 + b" by (simp add: b_def)
  have s3: "cp div 64 div 64 = a" by (simp add: a_def div_mult2_eq [symmetric])
  have v: "a * 4096 + b * 64 + c = cp" using s1 s2 s3 by linarith
  have lo: "a = 0 \<Longrightarrow> 32 \<le> b" using assms(1) v c by linarith
  have hi: "a = 13 \<Longrightarrow> b \<le> 31" using assms(2,3) v b c by linarith
  have b0: "unat (of_nat (0xE0 + a) :: byte) = 0xE0 + a" using a by (intro unat_byte) simp
  have b1: "unat (of_nat (0x80 + b) :: byte) = 0x80 + b" using b by (intro unat_byte) simp
  have b2: "unat (of_nat (0x80 + c) :: byte) = 0x80 + c" using c by (intro unat_byte) simp
  have enc: "utf8Bytes cp = [of_nat (0xE0 + a), of_nat (0x80 + b), of_nat (0x80 + c)]"
    using assms by (simp add: utf8Bytes_def a_def b_def c_def del: of_nat_add)
  have v': "(0xE0 + a - 0xE0) * 4096 + (0x80 + b - 0x80) * 64 + (0x80 + c - 0x80) = cp"
    using v by simp
  have "utf8Decode ([of_nat (0xE0 + a), of_nat (0x80 + b), of_nat (0x80 + c)] @ rest)
        = codeUnits (a * 4096 + b * 64 + c) @ utf8Decode rest"
    using a b c lo hi
    by (auto simp: b0 b1 b2 isContinuation_def Let_def simp del: of_nat_add)
  then show ?thesis unfolding enc v .
qed

lemma decode4:
  assumes "0x10000 \<le> cp" and "cp < 0x110000"
  shows "utf8Decode (utf8Bytes cp @ rest) = codeUnits cp @ utf8Decode rest"
proof -
  define a where "a = cp div 262144"
  define b where "b = cp div 4096 mod 64"
  define c where "c = cp div 64 mod 64"
  define d where "d = cp mod 64"
  have a: "a \<le> 4" using assms by (simp add: a_def)
  have b: "b \<le> 63" using mod_less_divisor [of 64 "cp div 4096"] by (simp add: b_def)
  have c: "c \<le> 63" using mod_less_divisor [of 64 "cp div 64"] by (simp add: c_def)
  have d: "d \<le> 63" using mod_less_divisor [of 64 cp] by (simp add: d_def)
  have s1: "cp = (cp div 64) * 64 + d" by (simp add: d_def)
  have s2: "cp div 64 = (cp div 64 div 64) * 64 + c" by (simp add: c_def)
  have s3: "cp div 64 div 64 = cp div 4096" by (simp add: div_mult2_eq [symmetric])
  have s4: "cp div 4096 = (cp div 4096 div 64) * 64 + b" by (simp add: b_def)
  have s5: "cp div 4096 div 64 = a" by (simp add: a_def div_mult2_eq [symmetric])
  have v: "a * 262144 + b * 4096 + c * 64 + d = cp" using s1 s2 s3 s4 s5 by linarith
  have lo: "a = 0 \<Longrightarrow> 16 \<le> b" using assms(1) v b c d by linarith
  have hi: "a = 4 \<Longrightarrow> b \<le> 15" using assms(2) v b c d by linarith
  have b0: "unat (of_nat (0xF0 + a) :: byte) = 0xF0 + a" using a by (intro unat_byte) simp
  have b1: "unat (of_nat (0x80 + b) :: byte) = 0x80 + b" using b by (intro unat_byte) simp
  have b2: "unat (of_nat (0x80 + c) :: byte) = 0x80 + c" using c by (intro unat_byte) simp
  have b3: "unat (of_nat (0x80 + d) :: byte) = 0x80 + d" using d by (intro unat_byte) simp
  have enc: "utf8Bytes cp
             = [of_nat (0xF0 + a), of_nat (0x80 + b), of_nat (0x80 + c), of_nat (0x80 + d)]"
    using assms by (simp add: utf8Bytes_def a_def b_def c_def d_def del: of_nat_add)
  have "utf8Decode ([of_nat (0xF0 + a), of_nat (0x80 + b), of_nat (0x80 + c), of_nat (0x80 + d)]
                    @ rest)
        = codeUnits (a * 262144 + b * 4096 + c * 64 + d) @ utf8Decode rest"
    using a b c d lo hi
    by (auto simp: b0 b1 b2 b3 isContinuation_def Let_def simp del: of_nat_add)
  then show ?thesis unfolding enc v .
qed

lemma decode_scalar:
  assumes "cp < 0x110000" and "\<not> (0xD800 \<le> cp \<and> cp \<le> 0xDFFF)"
  shows "utf8Decode (utf8Bytes cp @ rest) = codeUnits cp @ utf8Decode rest"
proof -
  consider "cp < 0x80" | "0x80 \<le> cp" "cp < 0x800" | "0x800 \<le> cp" "cp < 0x10000"
    | "0x10000 \<le> cp" by linarith
  then show ?thesis
  proof cases
    case 1
    then show ?thesis by (rule decode1)
  next
    case 2
    then show ?thesis by (rule decode2)
  next
    case 3
    then show ?thesis using assms(2) by (intro decode3)
  next
    case 4
    then show ?thesis using assms(1) by (intro decode4)
  qed
qed

lemma codeUnits_unit: "codeUnits (unat (c :: jschar)) = [c]"
  using unsigned_less [of c, where 'a = nat] by (simp add: codeUnits_def)

lemma codeUnits_pair:
  assumes "isHighSurrogate c" and "isLowSurrogate d"
  shows "codeUnits (0x10000 + (unat c - 0xD800) * 0x400 + (unat d - 0xDC00)) = [c, d]"
proof -
  define h where "h = unat c - 0xD800"
  define l where "l = unat d - 0xDC00"
  have h: "h \<le> 0x3FF" "unat c = 0xD800 + h"
    using assms(1) by (auto simp: isHighSurrogate_def h_def)
  have l: "l \<le> 0x3FF" "unat d = 0xDC00 + l"
    using assms(2) by (auto simp: isLowSurrogate_def l_def)
  have dv: "(h * 0x400 + l) div 0x400 = h" and md: "(h * 0x400 + l) mod 0x400 = l"
    using l(1) by simp_all
  have c: "(of_nat (0xD800 + h) :: jschar) = c" unfolding h(2) [symmetric] by simp
  have d: "(of_nat (0xDC00 + l) :: jschar) = d" unfolding l(2) [symmetric] by simp
  have "codeUnits (0x10000 + h * 0x400 + l)
        = [of_nat (0xD800 + h), of_nat (0xDC00 + l)]"
    using dv md by (simp add: codeUnits_def del: of_nat_add)
  then show ?thesis unfolding h_def [symmetric] l_def [symmetric] by (simp only: c d)
qed

lemma pair_range:
  assumes "isHighSurrogate c" and "isLowSurrogate d"
  shows "0x10000 + (unat c - 0xD800) * 0x400 + (unat d - 0xDC00) < 0x110000"
    and "0x10000 \<le> 0x10000 + (unat c - 0xD800) * 0x400 + (unat d - 0xDC00)"
  using assms by (auto simp: isHighSurrogate_def isLowSurrogate_def)

lemma utf8_roundtrip: "wellFormed s \<Longrightarrow> utf8Decode (utf8Encode s) = s"
proof (induction s rule: wellFormed.induct)
  case 1
  show ?case by simp
next
  case (2 c)
  then have ns: "\<not> (0xD800 \<le> unat c \<and> unat c \<le> 0xDFFF)"
    by (auto simp: isHighSurrogate_def isLowSurrogate_def)
  have lt: "unat c < 0x110000" using unsigned_less [of c, where 'a = nat] by simp
  from 2 decode_scalar [OF lt ns, of "[]"] show ?case
    by (simp add: codeUnits_unit)
next
  case (3 c d rest)
  show ?case
  proof (cases "isHighSurrogate c")
    case True
    with "3.prems" have low: "isLowSurrogate d" and wf: "wellFormed rest" by simp_all
    note r = pair_range [OF True low]
    have "utf8Decode (utf8Encode (c # d # rest))
          = codeUnits (0x10000 + (unat c - 0xD800) * 0x400 + (unat d - 0xDC00))
            @ utf8Decode (utf8Encode rest)"
      using True low decode4 [OF r(2) r(1)] by simp
    then show ?thesis using "3.IH"(1) [OF True wf] codeUnits_pair [OF True low] by simp
  next
    case False
    with "3.prems" have nl: "\<not> isLowSurrogate c" and wf: "wellFormed (d # rest)" by simp_all
    from False nl have ns: "\<not> (0xD800 \<le> unat c \<and> unat c \<le> 0xDFFF)"
      by (auto simp: isHighSurrogate_def isLowSurrogate_def)
    have lt: "unat c < 0x110000" using unsigned_less [of c, where 'a = nat] by simp
    have "utf8Decode (utf8Encode (c # d # rest))
          = codeUnits (unat c) @ utf8Decode (utf8Encode (d # rest))"
      using False nl decode_scalar [OF lt ns] by simp
    then show ?thesis using "3.IH"(2) [OF False wf] by (simp add: codeUnits_unit)
  qed
qed

lemma utf8Encode_ascii:
  "\<forall>c \<in> set s. unat c < 0x80 \<Longrightarrow> length (utf8Encode s) = length s"
proof (induction s rule: utf8Encode.induct)
  case 1
  show ?case by simp
next
  case (2 c)
  then show ?case by (simp add: utf8Bytes_def isHighSurrogate_def isLowSurrogate_def)
next
  case (3 c d rest)
  then show ?case by (simp add: utf8Bytes_def isHighSurrogate_def isLowSurrogate_def)
qed

text \<open>Under a block cipher that is undone by its inverse on 16-byte blocks, CBC with
  PKCS#7 padding is undone by its inverse, and the ciphertext is a positive whole number
  of blocks.\<close>

lemma xorBytes_cancel:
  "length a = length b \<Longrightarrow> xorBytes (xorBytes a b) b = a"
proof (induction a arbitrary: b)
  case Nil
  then show ?case by (simp add: xorBytes_def)
next
  case (Cons x a)
  then obtain y b' where b: "b = y # b'" by (cases b) auto
  with Cons.prems have "length a = length b'" by simp
  from Cons.IH [OF this] show ?case
    by (simp add: b xorBytes_def xor.assoc)
qed

lemma length_xorBytes: "length (xorBytes a b) = min (length a) (length b)"
  by (simp add: xorBytes_def)

lemma cbc_roundtrip:
  assumes "\<And>b. length b = 16 \<Longrightarrow> length (E b) = 16 \<and> D (E b) = b"
  shows "length prev = 16 \<Longrightarrow> \<forall>p \<in> set ps. length p = 16 \<Longrightarrow>
         cbcDecrypt D prev (cbcEncrypt E prev ps) = ps
         \<and> (\<forall>c \<in> set (cbcEncrypt E prev ps). length c = 16)
         \<and> length (cbcEncrypt E prev ps) = length ps"
proof (induction ps arbitrary: prev)
  case Nil
  show ?case by simp
next
  case (Cons p ps)
  have lp: "length p = 16" using Cons.prems(2) by simp
  have lx: "length (xorBytes p prev) = 16" using lp Cons.prems(1) by (simp add: length_xorBytes)
  note e = assms [OF lx]
  have rest: "\<forall>q \<in> set ps. length q = 16" using Cons.prems(2) by simp
  note ih = Cons.IH [OF conjunct1 [OF e] rest]
  have x: "xorBytes (xorBytes p prev) prev = p"
    using lp Cons.prems(1) by (intro xorBytes_cancel) simp
  show ?case using ih e x by (simp add: Let_def)
qed

lemma chop16_concat:
  "\<forall>b \<in> set bs. length b = 16 \<Longrightarrow> chop16 (concat bs) = bs"
proof (induction bs)
  case Nil
  show ?case by (simp add: chop16.simps)
next
  case (Cons b bs)
  then have lb: "length b = 16" and ih: "chop16 (concat bs) = bs" by simp_all
  have "b @ concat bs \<noteq> []" using lb by auto
  then show ?case using lb ih by (subst chop16.simps) simp
qed

lemma chop16_blocks:
  "length bs mod 16 = 0 \<Longrightarrow> concat (chop16 bs) = bs \<and> (\<forall>b \<in> set (chop16 bs). length b = 16)"
proof (induction bs rule: chop16.induct)
  case (1 bs)
  show ?case
  proof (cases "bs = []")
    case True
    then show ?thesis by (simp add: chop16.simps)
  next
    case False
    with "1.prems" have ge: "16 \<le> length bs" by (cases "length bs < 16") auto
    then have m: "length (drop 16 bs) mod 16 = 0" using "1.prems" by simp presburger
    note ih = "1.IH" [OF False m]
    have t: "length (take 16 bs) = 16" using ge by simp
    show ?thesis using False ih t by (subst chop16.simps, subst (2) chop16.simps) simp
  qed
qed

lemma pad_length: "length (pkcs7Pad bs) mod 16 = 0" "pkcs7Pad bs \<noteq> []"
proof -
  define r where "r = length bs mod 16"
  have r: "r < 16" by (simp add: r_def)
  have "length (pkcs7Pad bs) = length bs + (16 - r)" by (simp add: pkcs7Pad_def Let_def r_def)
  moreover have "(length bs + (16 - r)) mod 16 = 0" unfolding r_def by presburger
  ultimately show "length (pkcs7Pad bs) mod 16 = 0" by simp
  show "pkcs7Pad bs \<noteq> []" using r by (simp add: pkcs7Pad_def Let_def r_def [symmetric])
qed

lemma unpad_pad: "pkcs7Unpad (pkcs7Pad bs) = Inr bs"
proof -
  define n where "n = 16 - length bs mod 16"
  have n: "1 \<le> n" "n \<le> 16" using mod_less_divisor [of 16 "length bs"] by (simp_all add: n_def)
  have u: "unat (of_nat n :: byte) = n" using n by (simp add: unat_of_nat)
  have p: "pkcs7Pad bs = bs @ replicate n (of_nat n)" by (simp add: pkcs7Pad_def n_def Let_def)
  have l: "last (bs @ replicate n (of_nat n :: byte)) = of_nat n" using n by (cases n) simp_all
  show ?thesis unfolding p using n by (simp add: pkcs7Unpad_def l u Let_def del: of_nat_add)
qed

lemma length_concat16:
  "\<forall>b \<in> set bs. length b = 16 \<Longrightarrow> length (concat bs) = 16 * length bs"
  by (induction bs) simp_all

lemma aesCbc_roundtrip:
  assumes aes: "\<And>b. length b = 16 \<Longrightarrow> length (E b) = 16 \<and> D (E b) = b"
    and iv: "length iv = 16"
  shows "concat (cbcEncrypt E iv (chop16 (pkcs7Pad plain))) \<noteq> []"
    and "length (concat (cbcEncrypt E iv (chop16 (pkcs7Pad plain)))) mod 16 = 0"
    and "pkcs7Unpad (concat (cbcDecrypt D iv
           (chop16 (concat (cbcEncrypt E iv (chop16 (pkcs7Pad plain))))))) = Inr plain"
proof -
  let ?ps = "chop16 (pkcs7Pad plain)"
  let ?cs = "cbcEncrypt E iv ?ps"
  note ps = chop16_blocks [OF pad_length(1) [of plain]]
  note rt = cbc_roundtrip [of E D iv ?ps, OF aes iv conjunct2 [OF ps]]
  from rt have cs16: "\<forall>c \<in> set ?cs. length c = 16" and len: "length ?cs = length ?ps"
    and dec: "cbcDecrypt D iv ?cs = ?ps" by simp_all
  have "?ps \<noteq> []" using ps pad_length(2) [of plain] by auto
  with len have "0 < length ?cs" by simp
  then have "0 < length (concat ?cs)" using length_concat16 [OF cs16] by simp
  then show "concat ?cs \<noteq> []" by auto
  show "length (concat ?cs) mod 16 = 0" using length_concat16 [OF cs16] by simp
  show "pkcs7Unpad (concat (cbcDecrypt D iv (chop16 (concat ?cs)))) = Inr plain"
    by (simp add: chop16_concat [OF cs16] dec ps unpad_pad)
qed

lemma systemInfoOf_total: "\<exists>info. systemInfoOf H w = Inr info"
  by (auto simp: systemInfoOf_def tryCatch_def Let_def split: sum.splits)

text \<open>
  Claim C3. \<open>getSystemKey\<close> never throws: whatever the platform, the environment, the
  shell and the file system do, the \<open>switch\<close> yields an identifier (each branch catching
  its own errors), and the key returned is the hexadecimal SHA-256 digest of that
  identifier cut to its first 32 characters, which are the 32 bytes of the AES-256 key.
  The digest of SHA-256 has 64 hexadecimal digits. On macOS a failing shell command, and
  on Linux a machine-id file that is missing or cannot be read, leave the fallback
  identifier of the branch: the system's name and the user's. Nothing in the \<open>try\<close>
  block is left to throw past the branches, so the outer \<open>catch\<close>, which hashes the
  platform's name and the user's, is never entered.
\<close>

theorem getSystemKey_never_fails:
  assumes "\<And>s. length (sha256hex H s) = 64"
  shows "(\<exists>info. systemInfoOf H w = Inr info
            \<and> getSystemKey H w = Inr (take 32 (sha256hex H info))
            \<and> length (take 32 (sha256hex H info)) = 32)
       \<and> (platform H = lit ''darwin'' \<and> execSync H serialCommand = Inl e \<longrightarrow>
            systemInfoOf H w = Inr (lit ''macos-'' @ orElse (env H (lit ''USER'')) (lit ''user'')))
       \<and> (platform H = lit ''linux'' \<and> readFileSync w (lit ''/etc/machine-id'') = Inl e \<longrightarrow>
            systemInfoOf H w = Inr (lit ''linux-'' @ orElse (env H (lit ''USER'')) (lit ''user'')))"
proof -
  obtain info where i: "systemInfoOf H w = Inr info"
    using systemInfoOf_total by blast
  then have "getSystemKey H w = Inr (take 32 (sha256hex H info))"
    by (simp add: getSystemKey_def tryCatch_def substring0_def)
  with i assms have total: "\<exists>info. systemInfoOf H w = Inr info
            \<and> getSystemKey H w = Inr (take 32 (sha256hex H info))
            \<and> length (take 32 (sha256hex H info)) = 32"
    by simp
  have mac: "systemInfoOf H w = Inr (lit ''macos-'' @ orElse (env H (lit ''USER'')) (lit ''user''))"
    if "platform H = lit ''darwin''" and "execSync H serialCommand = Inl e"
    using that by (simp add: systemInfoOf_def tryCatch_def lit_def)
  have linux: "systemInfoOf H w = Inr (lit ''linux-'' @ orElse (env H (lit ''USER'')) (lit ''user''))"
    if "platform H = lit ''linux''" and "readFileSync w (lit ''/etc/machine-id'') = Inl e"
    using that by (simp add: systemInfoOf_def tryCatch_def lit_def)
  from total mac linux show ?thesis by blast
qed

theorem getSystemKey_never_fails_witness:
  "length (sha256hex testHost (lit ''abc'')) = 64
   \<and> systemInfoOf testHost
        (emptyWorld\<lparr>files := [lit ''/etc/machine-id'' \<mapsto> lit ''0123abcd'' @ [0x0A]],
                     readError := [lit ''/etc/machine-id'' \<mapsto> Error (lit ''EACCES'')]\<rparr>)
      = Inr (lit ''linux-dev'')
   \<and> getSystemKey testHost
        (emptyWorld\<lparr>files := [lit ''/etc/machine-id'' \<mapsto> lit ''0123abcd'' @ [0x0A]],
                     readError := [lit ''/etc/machine-id'' \<mapsto> Error (lit ''EACCES'')]\<rparr>)
      = Inr (lit ''99999999999999999999999999999999'')"
proof -
  let ?w = "emptyWorld\<lparr>files := [lit ''/etc/machine-id'' \<mapsto> lit ''0123abcd'' @ [0x0A]],
                     readError := [lit ''/etc/machine-id'' \<mapsto> Error (lit ''EACCES'')]\<rparr>"
  have len: "\<And>s. length (sha256hex testHost s) = 64"
    by (simp add: testHost_def)
  have info: "systemInfoOf testHost ?w = Inr (lit ''linux-dev'')"
    by (simp add: systemInfoOf_def testHost_def emptyWorld_def tryCatch_def existsSync_def
        readFileSync_def orElse_def truthy_def lit_def)
  have h: "take 32 (sha256hex testHost (lit ''linux-dev''))
           = lit ''99999999999999999999999999999999''"
    by code_simp
  from getSystemKey_never_fails [of testHost ?w "Error (lit ''EACCES'')", OF len] info h len
  show ?thesis
    by auto
qed

lemma length_toHex: "length (toHex bs) = 2 * length bs"
  by (induction bs) (simp_all add: toHex_def)

lemma decrypt_encrypt:
  assumes key: "length (utf8Encode (encryptionKey m)) = 32" and iv: "length iv = 16"
    and aes: "\<And>b. length b = 16 \<Longrightarrow>
                length (aesEncryptBlock H (utf8Encode (encryptionKey m)) b) = 16
                \<and> aesDecryptBlock H (utf8Encode (encryptionKey m))
                      (aesEncryptBlock H (utf8Encode (encryptionKey m)) b) = b"
  shows "encrypt H m iv s
         = Inr (toHex iv @ lit '':'' @ cipherUpdateFinal H (utf8Encode (encryptionKey m), iv) s)"
    and "decrypt H m
           (toHex iv @ lit '':'' @ cipherUpdateFinal H (utf8Encode (encryptionKey m), iv) s)
         = Inr (utf8Decode (utf8Encode s))"
proof -
  let ?k = "utf8Encode (encryptionKey m)"
  let ?ct = "concat (cbcEncrypt (aesEncryptBlock H ?k) iv (chop16 (pkcs7Pad (utf8Encode s))))"
  have init: "createCipheriv (encryptionKey m) iv = Inr (?k, iv)"
    using key iv by (simp add: createCipheriv_def Let_def)
  have hex: "cipherUpdateFinal H (?k, iv) s = toHex ?ct"
    by (simp add: cipherUpdateFinal_def)
  show "encrypt H m iv s = Inr (toHex iv @ lit '':'' @ cipherUpdateFinal H (?k, iv) s)"
    by (simp add: encrypt_def init tryCatch_def Let_def)
  note rt = aesCbc_roundtrip [of "aesEncryptBlock H ?k" "aesDecryptBlock H ?k" iv "utf8Encode s",
      OF aes iv]
  have ivne: "iv \<noteq> []" using iv by auto
  have parts: "str_split 0x3A (toHex iv @ lit '':'' @ toHex ?ct) = [toHex iv, toHex ?ct]"
    by (simp add: lit_def str_split_append str_split_notin colon_notin_toHex)
  have fin: "decipherUpdateFinal H (?k, iv) (toHex ?ct) = Inr (utf8Decode (utf8Encode s))"
    using rt by (simp add: decipherUpdateFinal_def length_toHex fromHex_toHex Let_def)
  show "decrypt H m (toHex iv @ lit '':'' @ cipherUpdateFinal H (?k, iv) s)
        = Inr (utf8Decode (utf8Encode s))"
    unfolding hex
    using ivne rt(1)
    by (simp add: decrypt_def parts tryCatch_def at_def orElse_def truthy_def Let_def
        toHex_nonempty fromHex_toHex init fin)
qed

lemma save_then_load:
  assumes enc: "encrypt H m iv s = Inr record" and dec: "decrypt H m record = Inr s'"
    and "files w (configPath m) = None"
    and "writeError w (configPath m) = None" and "readError w (configPath m) = None"
  shows "hasApiKey m w = False"
    and "loadApiKey H m w = Inl (Error (lit ''API key n'' @ [0xE3]
                    @ lit ''o encontrada. Execute o setup primeiro.''))"
    and "fst (saveApiKey H m iv s w) = Inr ()"
    and "hasApiKey m (snd (saveApiKey H m iv s w)) = True"
    and "loadApiKey H m (snd (saveApiKey H m iv s w)) = Inr s'"
proof -
  show before: "hasApiKey m w = False"
    using assms(3) by (simp add: hasApiKey_def existsSync_def)
  show "loadApiKey H m w = Inl (Error (lit ''API key n'' @ [0xE3]
                    @ lit ''o encontrada. Execute o setup primeiro.''))"
    using before by (simp add: loadApiKey_def)
  have saved: "saveApiKey H m iv s w =
      (Inr (), print (Log ([0x2705] @ lit '' | API key salva com seguran'' @ [0xE7] @ lit ''a!''))
                 (w\<lparr>files := (files w)(configPath m \<mapsto> record)\<rparr>))"
    using assms(4) by (simp add: saveApiKey_def enc writeFileSync_def)
  show "fst (saveApiKey H m iv s w) = Inr ()" by (simp add: saved)
  show "hasApiKey m (snd (saveApiKey H m iv s w)) = True"
    by (simp add: saved hasApiKey_def existsSync_def print_def)
  show "loadApiKey H m (snd (saveApiKey H m iv s w)) = Inr s'"
    using assms(5)
    by (simp add: saved loadApiKey_def hasApiKey_def existsSync_def print_def readFileSync_def
        dec tryCatch_def)
qed

lemma testKey_length: "length (utf8Encode (encryptionKey testManager)) = 32"
proof -
  have "\<forall>c \<in> set (encryptionKey testManager). unat c < 0x80"
    by (simp add: testManager_def lit_def)
  from utf8Encode_ascii [OF this] show ?thesis by (simp add: testManager_def lit_def)
qed

lemma testHost_aes:
  assumes b: "length b = 16"
  shows "length (aesEncryptBlock testHost (utf8Encode (encryptionKey testManager)) b) = 16
     \<and> aesDecryptBlock testHost (utf8Encode (encryptionKey testManager))
           (aesEncryptBlock testHost (utf8Encode (encryptionKey testManager)) b) = b"
proof -
  let ?k = "take 16 (utf8Encode (encryptionKey testManager))"
  have t: "length b = length ?k" using b testKey_length by simp
  have e: "aesEncryptBlock testHost = (\<lambda>key block. xorBytes block (take 16 key))"
    and d: "aesDecryptBlock testHost = (\<lambda>key block. xorBytes block (take 16 key))"
    by (simp_all add: testHost_def)
  have l: "length (xorBytes b ?k) = 16" using t b by (simp add: length_xorBytes)
  show ?thesis unfolding e d using xorBytes_cancel [OF t] l by simp
qed

lemma utf8Encode_ascii_map:
  "\<forall>c \<in> set s. unat c < 0x80 \<Longrightarrow> utf8Encode s = map (\<lambda>c. of_nat (unat c)) s"
proof (induction s rule: utf8Encode.induct)
  case 1
  show ?case by simp
next
  case (2 c)
  then show ?case by (simp add: utf8Bytes_def isHighSurrogate_def isLowSurrogate_def)
next
  case (3 c d rest)
  then show ?case by (simp add: utf8Bytes_def isHighSurrogate_def isLowSurrogate_def)
qed

lemma testKey_bytes:
  "utf8Encode (encryptionKey testManager)
   = map (\<lambda>c. of_nat (unat c)) (lit ''99999999999999999999999999999999'')"
proof -
  have "\<forall>c \<in> set (encryptionKey testManager). unat c < 0x80"
    by (simp add: testManager_def lit_def)
  from utf8Encode_ascii_map [OF this] show ?thesis by (simp add: testManager_def)
qed

text \<open>The key that the constructor derives is 32 bytes in UTF-8 when the digest of
  SHA-256 is its 64 hexadecimal digits (ASCII characters are enough).\<close>

lemma derived_key_length:
  assumes "\<And>s. length (sha256hex H s) = 64" and "\<And>s. \<forall>c \<in> set (sha256hex H s). unat c < 0x80"
  shows "\<exists>m. newApiKeyManager H w = Inr m \<and> length (utf8Encode (encryptionKey m)) = 32"
proof -
  obtain info where i: "systemInfoOf H w = Inr info"
    using systemInfoOf_total by blast
  then have k: "getSystemKey H w = Inr (take 32 (sha256hex H info))"
    by (simp add: getSystemKey_def tryCatch_def substring0_def)
  have "\<forall>c \<in> set (take 32 (sha256hex H info)). unat c < 0x80"
    using assms(2) [of info] by (auto dest: in_set_takeD)
  from utf8Encode_ascii [OF this] assms(1) [of info]
  have "length (utf8Encode (take 32 (sha256hex H info))) = 32" by simp
  then show ?thesis by (simp add: newApiKeyManager_def k)
qed

text \<open>
  Claim C1, on the code. Let the key of the manager be 32 bytes in UTF-8 (as the key
  that the constructor derives is: 32 hexadecimal digits), let the IV drawn have 16 bytes,
  and let the AES block cipher of the host under that key be undone by its inverse on
  16-byte blocks. Then for every string \<open>s\<close>, \<open>encrypt s\<close> succeeds and \<open>decrypt\<close> of its result
  is the UTF-8 decoding of the UTF-8 encoding of \<open>s\<close>; and from a world without the secret
  file, where that path can be written and read: \<open>hasApiKey\<close> is false and \<open>loadApiKey\<close>
  fails with "not found", \<open>saveApiKey s\<close> succeeds, after it \<open>hasApiKey\<close> is true and
  \<open>loadApiKey\<close> returns that same decoding. When \<open>s\<close> is well formed (no surrogate without
  its partner), the decoding is \<open>s\<close>: \<open>decrypt (encrypt s) = s\<close> and \<open>loadApiKey\<close> returns \<open>s\<close>.
\<close>

theorem save_load_roundtrip:
  assumes "length (utf8Encode (encryptionKey m)) = 32" and "length iv = 16"
    and "\<And>b. length b = 16 \<Longrightarrow>
           length (aesEncryptBlock H (utf8Encode (encryptionKey m)) b) = 16
           \<and> aesDecryptBlock H (utf8Encode (encryptionKey m))
                 (aesEncryptBlock H (utf8Encode (encryptionKey m)) b) = b"
    and "files w (configPath m) = None"
    and "writeError w (configPath m) = None" and "readError w (configPath m) = None"
  shows "encrypt H m iv s
           = Inr (toHex iv @ lit '':'' @ cipherUpdateFinal H (utf8Encode (encryptionKey m), iv) s)
       \<and> decrypt H m
             (toHex iv @ lit '':'' @ cipherUpdateFinal H (utf8Encode (encryptionKey m), iv) s)
           = Inr (utf8Decode (utf8Encode s))
       \<and> hasApiKey m w = False
       \<and> loadApiKey H m w = Inl (Error (lit ''API key n'' @ [0xE3]
                    @ lit ''o encontrada. Execute o setup primeiro.''))
       \<and> fst (saveApiKey H m iv s w) = Inr ()
       \<and> hasApiKey m (snd (saveApiKey H m iv s w)) = True
       \<and> loadApiKey H m (snd (saveApiKey H m iv s w)) = Inr (utf8Decode (utf8Encode s))
       \<and> (wellFormed s \<longrightarrow>
            decrypt H m
              (toHex iv @ lit '':'' @ cipherUpdateFinal H (utf8Encode (encryptionKey m), iv) s)
            = Inr s
            \<and> loadApiKey H m (snd (saveApiKey H m iv s w)) = Inr s)"
proof -
  note rt = decrypt_encrypt [of m iv H s, OF assms(1,2,3)]
  note sl = save_then_load [OF rt assms(4,5,6)]
  have wf: "utf8Decode (utf8Encode s) = s" if "wellFormed s"
    using that by (rule utf8_roundtrip)
  from rt sl wf show ?thesis by simp
qed

theorem save_load_roundtrip_witness:
  "length (utf8Encode (encryptionKey testManager)) = 32
   \<and> length testIV = 16
   \<and> wellFormed (lit ''AIzaTESTKEY'')
   \<and> encrypt testHost testManager testIV (lit ''AIzaTESTKEY'')
     = Inr (lit ''00112233445566778899aabbccddeeff:7861616b29290c1afae5ca87f0e1d2c3'')
   \<and> decrypt testHost testManager
        (lit ''00112233445566778899aabbccddeeff:7861616b29290c1afae5ca87f0e1d2c3'')
     = Inr (lit ''AIzaTESTKEY'')
   \<and> hasApiKey testManager emptyWorld = False
   \<and> hasApiKey testManager
        (snd (saveApiKey testHost testManager testIV (lit ''AIzaTESTKEY'') emptyWorld)) = True
   \<and> loadApiKey testHost testManager
        (snd (saveApiKey testHost testManager testIV (lit ''AIzaTESTKEY'') emptyWorld))
     = Inr (lit ''AIzaTESTKEY'')"
proof -
  let ?s = "lit ''AIzaTESTKEY''"
  have l: "length testIV = 16" by (simp add: testIV_def)
  have f: "files emptyWorld (configPath testManager) = None"
    and we: "writeError emptyWorld (configPath testManager) = None"
    and re: "readError emptyWorld (configPath testManager) = None"
    by (simp_all add: emptyWorld_def)
  have wf: "wellFormed ?s"
    by (simp add: lit_def isHighSurrogate_def isLowSurrogate_def)
  have bytes: "utf8Encode ?s = map (\<lambda>c. of_nat (unat c)) ?s"
    by (rule utf8Encode_ascii_map) (simp add: lit_def)
  have hex: "toHex testIV @ lit '':''
               @ cipherUpdateFinal testHost (utf8Encode (encryptionKey testManager), testIV) ?s
             = lit ''00112233445566778899aabbccddeeff:7861616b29290c1afae5ca87f0e1d2c3''"
    unfolding cipherUpdateFinal_def testKey_bytes bytes by code_simp
  from wf have same: "utf8Decode (utf8Encode ?s) = ?s" by (rule utf8_roundtrip)
  from save_load_roundtrip [of testManager testIV testHost emptyWorld ?s,
      OF testKey_length l testHost_aes f we re]
    testKey_length l wf
  show ?thesis
    unfolding hex same by simp
qed

text \<open>
  Claim C1 as worded, for every secret string, fails on a string that holds a surrogate
  without its partner: \<open>cipher.update(text, 'utf8', 'hex')\<close> encodes it as U+FFFD, and
  U+FFFD is what \<open>decrypt\<close> and \<open>loadApiKey\<close> return. Here the secret is the one code unit
  \<open>0xD800\<close>.
\<close>

theorem save_load_surrogate_counterexample:
  "encrypt testHost testManager testIV [0xD800]
     = Inr (lit ''00112233445566778899aabbccddeeff:d697a60770615243bcad9e8ff8e9dacb'')
   \<and> decrypt testHost testManager
        (lit ''00112233445566778899aabbccddeeff:d697a60770615243bcad9e8ff8e9dacb'')
     = Inr [0xFFFD]
   \<and> hasApiKey testManager emptyWorld = False
   \<and> fst (saveApiKey testHost testManager testIV [0xD800] emptyWorld) = Inr ()
   \<and> loadApiKey testHost testManager
        (snd (saveApiKey testHost testManager testIV [0xD800] emptyWorld))
     = Inr [0xFFFD]
   \<and> [0xFFFD] \<noteq> ([0xD800] :: jsstring)"
proof -
  let ?s = "[0xD800] :: jsstring"
  have l: "length testIV = 16" by (simp add: testIV_def)
  have f: "files emptyWorld (configPath testManager) = None"
    and we: "writeError emptyWorld (configPath testManager) = None"
    and re: "readError emptyWorld (configPath testManager) = None"
    by (simp_all add: emptyWorld_def)
  have bytes: "utf8Encode ?s = [0xEF, 0xBF, 0xBD]"
    by (simp add: isHighSurrogate_def isLowSurrogate_def utf8Bytes_def)
  have hex: "toHex testIV @ lit '':''
               @ cipherUpdateFinal testHost (utf8Encode (encryptionKey testManager), testIV) ?s
             = lit ''00112233445566778899aabbccddeeff:d697a60770615243bcad9e8ff8e9dacb''"
    unfolding cipherUpdateFinal_def testKey_bytes bytes by code_simp
  have u: "utf8Decode (utf8Encode ?s) = [0xFFFD]"
    by (simp add: isHighSurrogate_def isLowSurrogate_def utf8Bytes_def isContinuation_def
        codeUnits_def Let_def)
  note rt = decrypt_encrypt [of testManager testIV testHost ?s, OF testKey_length l testHost_aes]
  note sl = save_then_load [OF rt f we re]
  from rt sl show ?thesis unfolding hex u by simp
qed

lemma decipherUpdateFinal_short:
  "\<exists>e. decipherUpdateFinal H d (lit ''2041'') = Inl e"
proof -
  have h: "fromHex (lit ''2041'') = [0x20, 0x41]" by code_simp
  have o: "\<not> odd (length (lit ''2041''))" by (simp add: lit_def)
  show ?thesis
    by (cases d) (simp add: decipherUpdateFinal_def h o Let_def)
qed

text \<open>
  Claim C4 on the code. A secret file without a colon has no second half, and
  \<open>decrypt\<close> throws its "invalid format" error for it inside its own \<open>try\<close> block: the
  \<open>catch\<close> replaces it, and \<open>loadApiKey\<close> fails with the very error it fails with when
  decryption does not succeed on a record that has its two halves (here one whose
  ciphertext, of two bytes, is not a whole number of blocks), whatever the host, the
  manager and the rest of the world.
\<close>

theorem loadApiKey_malformed_masked:
  "loadApiKey H m
      (w\<lparr>files := (files w)(configPath m \<mapsto> lit ''not-a-record''), readError := Map.empty\<rparr>)
     = Inl (Error (lit ''Erro ao carregar API key: ''
                   @ lit ''Erro ao descriptografar a API key - pode ter sido corrompida''))
   \<and> loadApiKey H m
      (w\<lparr>files := (files w)(configPath m \<mapsto> lit ''00112233445566778899aabbccddeeff:2041''),
         readError := Map.empty\<rparr>)
     = Inl (Error (lit ''Erro ao carregar API key: ''
                   @ lit ''Erro ao descriptografar a API key - pode ter sido corrompida''))"
proof -
  have one: "str_split 0x3A (lit ''not-a-record'') = [lit ''not-a-record'']"
    by (simp add: lit_def)
  have two: "str_split 0x3A (lit ''00112233445566778899aabbccddeeff:2041'')
             = [lit ''00112233445566778899aabbccddeeff'', lit ''2041'']"
    by (simp add: lit_def)
  have a: "decrypt H m (lit ''not-a-record'')
           = Inl (Error (lit ''Erro ao descriptografar a API key - pode ter sido corrompida''))"
    by (simp add: decrypt_def one tryCatch_def at_def orElse_def truthy_def Let_def)
  have ne: "lit ''00112233445566778899aabbccddeeff'' \<noteq> []" "lit ''2041'' \<noteq> []"
    by (simp_all add: lit_def)
  have b: "decrypt H m (lit ''00112233445566778899aabbccddeeff:2041'')
           = Inl (Error (lit ''Erro ao descriptografar a API key - pode ter sido corrompida''))"
  proof (cases "createCipheriv (encryptionKey m) (fromHex (lit ''00112233445566778899aabbccddeeff''))")
    case (Inl e)
    then show ?thesis
      by (simp add: decrypt_def two tryCatch_def at_def orElse_def truthy_def Let_def ne)
  next
    case (Inr d)
    obtain e where "decipherUpdateFinal H d (lit ''2041'') = Inl e"
      using decipherUpdateFinal_short by blast
    with Inr show ?thesis
      by (simp add: decrypt_def two tryCatch_def at_def orElse_def truthy_def Let_def ne)
  qed
  show ?thesis
    by (simp add: loadApiKey_def hasApiKey_def existsSync_def readFileSync_def tryCatch_def a b)
qed


section \<open>Properties of the cache and of the client\<close>

lemma saveCache_ok:
  assumes "schemas C key = Some sch" and "writeError w (cacheFile C key) = None"
  shows "saveCache H C key v w =
           (Inr (), (if safeParse sch v = None
                     then print (Warn (lit ''WARNING: Data being saved for '' @ [0x27] @ key
                                       @ [0x27]
                                       @ lit '' does not validate against the schema. Errors:'')) w
                     else w)
                    \<lparr>files := (files w)(cacheFile C key \<mapsto> JSON_stringify H v)\<rparr>)"
  using assms by (simp add: saveCache_def writeFileSync_def print_def Let_def)

lemma loadCache_invalid_no_default:
  assumes "schemas C key = Some sch" and "effectiveDefaultValue sch None = None"
    and "files w (cacheFile C key) = Some content"
    and "case JSON_parse H content of Inl e \<Rightarrow> True | Inr v \<Rightarrow> safeParse sch v = None"
  shows "\<exists>e. loadCache H C key None w = (Inl e, w)"
  using assms
  by (auto simp: loadCache_def loadExisting_def existsSync_def readFileSync_def
      split: sum.splits option.splits)

lemma loadCache_invalid_message:
  assumes "schemas C key = Some sch" and "effectiveDefaultValue sch None = None"
    and "files w (cacheFile C key) = Some content" and "readError w (cacheFile C key) = None"
    and "JSON_parse H content = Inr v" and "safeParse sch v = None"
  shows "loadCache H C key None w =
           (Inl (Error (lit ''Error processing cache '' @ [0x27] @ key @ [0x27] @ lit '': ''
                        @ lit ''Error validating cache '' @ [0x27] @ key @ [0x27]
                        @ lit '' and no default value was provided or defined in the schema.'')), w)"
  using assms
  by (simp add: loadCache_def loadExisting_def existsSync_def readFileSync_def)

lemma loadCache_invalid_default:
  assumes "schemas C key = Some sch"
    and "files w (cacheFile C key) = Some content" and "readError w (cacheFile C key) = None"
    and "writeError w (cacheFile C key) = None"
    and "JSON_parse H content = Inr v" and "safeParse sch v = None"
  shows "fst (loadCache H C key (Some d) w) = Inr d"
    and "files (snd (loadCache H C key (Some d) w)) (cacheFile C key) = Some (JSON_stringify H d)"
  using assms
  by (simp_all add: loadCache_def loadExisting_def existsSync_def readFileSync_def
      effectiveDefaultValue_def saveAndReturn_def saveCache_ok print_def)

text \<open>
  Claim C5. For a key without a schema in the registry, \<open>loadCache\<close> throws "Schema not
  found" and leaves the world as it is: whatever the files are (the cache file of that
  key present or not) and whether a default is passed or not.
\<close>

theorem loadCache_unregistered:
  assumes "schemas C filename = None"
  shows "loadCache H C filename dflt w
         = (Inl (Error (lit ''Schema not found for key: '' @ filename)), w)"
  using assms by (simp add: loadCache_def)

theorem loadCache_unregistered_witness:
  "schemas testCache (lit ''history'') = None
   \<and> loadCache testHost testCache (lit ''history'') (Some normalSettings)
        (emptyWorld\<lparr>files := [cacheFile testCache (lit ''history'') \<mapsto> lit ''null'']\<rparr>)
     = (Inl (Error (lit ''Schema not found for key: history'')),
        emptyWorld\<lparr>files := [cacheFile testCache (lit ''history'') \<mapsto> lit ''null'']\<rparr>)"
proof -
  have h: "schemas testCache (lit ''history'') = None"
    by (simp add: testCache_def newCacheController_def settingsRegistry_def lit_def)
  from loadCache_unregistered [OF h] h show ?thesis
    by (simp add: lit_def)
qed

text \<open>
  Claim C2. Let \<open>key\<close> be registered with a schema that rejects \<open>v\<close> and that has no
  default of its own, on a host whose \<open>JSON.parse\<close> reads back what \<open>JSON.stringify\<close>
  wrote for \<open>v\<close>, in a world where the cache file of \<open>key\<close> can be written and read.
  Then \<open>saveCache key v\<close> succeeds, prints one warning and writes \<open>v\<close>; after it,
  \<open>loadCache key\<close> without a default throws an error that names the key and says that
  validation failed and no default was there, leaving the world as it is; and
  \<open>loadCache key\<close> with the default \<open>d\<close> returns \<open>d\<close> and leaves \<open>d\<close> in the file.
\<close>

theorem invalid_value_saved_then_loaded:
  assumes "schemas C key = Some sch" and "safeParse sch v = None"
    and "JSON_parse H (JSON_stringify H v) = Inr v"
    and "writeError w (cacheFile C key) = None" and "readError w (cacheFile C key) = None"
    and "effectiveDefaultValue sch None = None"
  shows "fst (saveCache H C key v w) = Inr ()
       \<and> console (snd (saveCache H C key v w)) = console w @
            [Warn (lit ''WARNING: Data being saved for '' @ [0x27] @ key @ [0x27]
                   @ lit '' does not validate against the schema. Errors:'')]
       \<and> files (snd (saveCache H C key v w)) (cacheFile C key) = Some (JSON_stringify H v)
       \<and> loadCache H C key None (snd (saveCache H C key v w)) =
           (Inl (Error (lit ''Error processing cache '' @ [0x27] @ key @ [0x27] @ lit '': ''
                        @ lit ''Error validating cache '' @ [0x27] @ key @ [0x27]
                        @ lit '' and no default value was provided or defined in the schema.'')),
            snd (saveCache H C key v w))
       \<and> fst (loadCache H C key (Some d) (snd (saveCache H C key v w))) = Inr d
       \<and> files (snd (loadCache H C key (Some d) (snd (saveCache H C key v w)))) (cacheFile C key)
           = Some (JSON_stringify H d)"
proof -
  let ?w1 = "snd (saveCache H C key v w)"
  note s = saveCache_ok [OF assms(1,4), of H v]
  have f: "files ?w1 (cacheFile C key) = Some (JSON_stringify H v)"
    and r: "readError ?w1 (cacheFile C key) = None"
    and wr: "writeError ?w1 (cacheFile C key) = None"
    and c: "console ?w1 = console w @
            [Warn (lit ''WARNING: Data being saved for '' @ [0x27] @ key @ [0x27]
                   @ lit '' does not validate against the schema. Errors:'')]"
    using assms(2,4,5) by (simp_all add: s print_def)
  have ok: "fst (saveCache H C key v w) = Inr ()" by (simp add: s)
  note l1 = loadCache_invalid_message [OF assms(1) assms(6) f r assms(3) assms(2)]
  note l2 = loadCache_invalid_default [OF assms(1) f r wr assms(3) assms(2), of d]
  from ok c f l1 l2 show ?thesis by simp
qed

theorem invalid_value_saved_then_loaded_witness:
  "safeParse SettingsSchema invalidSettings = None
   \<and> fst (saveCache testHost testCache (lit ''settings'') invalidSettings emptyWorld) = Inr ()
   \<and> fst (loadCache testHost testCache (lit ''settings'') (Some normalSettings)
            (snd (saveCache testHost testCache (lit ''settings'') invalidSettings emptyWorld)))
       = Inr normalSettings
   \<and> files (snd (loadCache testHost testCache (lit ''settings'') (Some normalSettings)
            (snd (saveCache testHost testCache (lit ''settings'') invalidSettings emptyWorld))))
        (cacheFile testCache (lit ''settings''))
       = Some (JSON_stringify testHost normalSettings)"
proof -
  have reg: "schemas testCache (lit ''settings'') = Some SettingsSchema"
    by (simp add: testCache_def newCacheController_def settingsRegistry_def)
  have inv: "safeParse SettingsSchema invalidSettings = None"
    by (simp add: SettingsSchema_def invalidSettings_def lit_def)
  have rt: "JSON_parse testHost (JSON_stringify testHost invalidSettings) = Inr invalidSettings"
    by (simp add: testHost_def jsonTable_def invalidSettings_def lit_def)
  have we: "writeError emptyWorld (cacheFile testCache (lit ''settings'')) = None"
    and re: "readError emptyWorld (cacheFile testCache (lit ''settings'')) = None"
    by (simp_all add: emptyWorld_def)
  have nd: "effectiveDefaultValue SettingsSchema None = None"
    by (simp add: effectiveDefaultValue_def SettingsSchema_def)
  from invalid_value_saved_then_loaded [OF reg inv rt we re nd, of normalSettings] inv
  show ?thesis by simp
qed

lemma files_print: "files (print l w) = files w"
  by (simp add: print_def)

lemma promptForApiKey_files:
  "files (snd (promptForApiKey a c w)) = files w"
  by (simp add: promptForApiKey_def Let_def files_print)

lemma saveApiKey_files:
  "p \<noteq> configPath m \<Longrightarrow> files (snd (saveApiKey H m iv k w)) p = files w p"
  by (auto simp: saveApiKey_def writeFileSync_def files_print split: sum.splits option.splits)

lemma setupApiKey_files:
  "p \<noteq> configPath m \<Longrightarrow> files (snd (setupApiKey H m iv a c w)) p = files w p"
proof -
  assume p: "p \<noteq> configPath m"
  obtain r w1 where pr: "promptForApiKey a c w = (r, w1)" by (cases "promptForApiKey a c w")
  then have w1: "files w1 = files w" using promptForApiKey_files [of a c w] by simp
  show ?thesis
  proof (cases r)
    case (Inl e)
    then show ?thesis using pr w1 by (simp add: setupApiKey_def)
  next
    case (Inr k)
    obtain r2 w2 where sv: "saveApiKey H m iv k w1 = (r2, w2)" by (cases "saveApiKey H m iv k w1")
    then have "files w2 p = files w1 p" using saveApiKey_files [OF p, of H iv k w1] by simp
    then show ?thesis using pr Inr sv w1 by (cases r2) (simp_all add: setupApiKey_def)
  qed
qed

lemma ensureInitialized_frame:
  assumes "p \<noteq> configPath (apiKeyManager c)"
  shows "files (snd (snd (ensureInitialized H iv a cf c w))) p = files w p"
    and "CacheManager (fst (snd (ensureInitialized H iv a cf c w))) = CacheManager c"
proof -
  let ?m = "apiKeyManager c"
  let ?w2 = "print (Log ([0xD83D, 0xDD27] @ lit '' | Vamos configurar uma nova API key...'' @ [0x0A]))
              (print (ConsoleError ([0x274C] @ lit '' | Erro ao carregar API key:'')) w)"
  have a: "files (snd (setupApiKey H ?m iv a cf ?w2)) p = files w p"
    using setupApiKey_files [OF assms, of H iv a cf ?w2] by (simp add: files_print)
  have b: "files (snd (setupApiKey H ?m iv a cf w)) p = files w p"
    using setupApiKey_files [OF assms, of H iv a cf w] by simp
  show "files (snd (snd (ensureInitialized H iv a cf c w))) p = files w p"
    using a b
    by (auto simp: ensureInitialized_def Let_def split: sum.splits prod.splits if_splits)
  show "CacheManager (fst (snd (ensureInitialized H iv a cf c w))) = CacheManager c"
    by (auto simp: ensureInitialized_def Let_def split: sum.splits prod.splits if_splits)
qed

lemma settingsFile_not_configPath: "settingsFile \<noteq> home @ lit ''/.foxy-config.enc''"
proof
  assume "settingsFile = home @ lit ''/.foxy-config.enc''"
  then have "last settingsFile = last (home @ lit ''/.foxy-config.enc'')" by simp
  then show False
    by (simp add: settingsFile_def cacheFile_def newCacheController_def lit_def)
qed

text \<open>
  Claim C9. For a client as its constructor makes it (the \<open>settings\<close> registry under
  \<open>/tmp\<close>, the secret file in the home directory), in whatever state of initialisation:
  when the \<open>settings\<close> cache file exists and its content is not JSON or parses to a
  value the settings schema rejects, \<open>responder\<close> throws, and the file still holds the
  same content afterwards: nothing replaced it by a default.
\<close>

theorem responder_throws_on_invalid_settings:
  assumes "CacheManager c = newCacheController settingsRegistry (lit ''/tmp'')"
    and "configPath (apiKeyManager c) = homedir H @ lit ''/.foxy-config.enc''"
    and "files w settingsFile = Some content"
    and "case JSON_parse H content of Inl e \<Rightarrow> True | Inr v \<Rightarrow> safeParse SettingsSchema v = None"
  shows "(\<exists>e. fst (responder H iv answer confirm c text w) = Inl e)
       \<and> files (snd (snd (responder H iv answer confirm c text w))) settingsFile = Some content"
proof -
  let ?C = "newCacheController settingsRegistry (lit ''/tmp'')"
  obtain r c1 w1 where ei: "ensureInitialized H iv answer confirm c w = (r, c1, w1)"
    by (cases "ensureInitialized H iv answer confirm c w") auto
  have ne: "settingsFile \<noteq> configPath (apiKeyManager c)"
    using settingsFile_not_configPath [of "homedir H"] assms(2) by simp
  from ensureInitialized_frame [OF ne, of H iv answer confirm w] ei assms(1,3)
  have f1: "files w1 settingsFile = Some content" and cm: "CacheManager c1 = ?C"
    by simp_all
  have reg: "schemas ?C (lit ''settings'') = Some SettingsSchema"
    by (simp add: newCacheController_def settingsRegistry_def)
  have nd: "effectiveDefaultValue SettingsSchema None = None"
    by (simp add: effectiveDefaultValue_def SettingsSchema_def)
  have f1': "files w1 (cacheFile ?C (lit ''settings'')) = Some content"
    using f1 by (simp add: settingsFile_def)
  obtain e where lc: "loadCache H ?C (lit ''settings'') None w1 = (Inl e, w1)"
    using loadCache_invalid_no_default [OF reg nd f1' assms(4)] by blast
  have ex: "hasExistingCache ?C (lit ''settings'') w1"
    using f1' by (simp add: hasExistingCache_def existsSync_def)
  show ?thesis
  proof (cases r)
    case (Inl e0)
    then show ?thesis using ei f1 by (simp add: responder_def)
  next
    case (Inr u)
    show ?thesis
    proof (cases "GGProfile c1")
      case None
      then show ?thesis using ei Inr f1 by (simp add: responder_def)
    next
      case (Some apiKey)
      then show ?thesis using ei Inr cm ex lc f1 by (simp add: responder_def)
    qed
  qed
qed

theorem responder_throws_on_invalid_settings_witness:
  "files (emptyWorld\<lparr>files := [settingsFile \<mapsto> JSON_stringify testHost invalidSettings]\<rparr>)
      settingsFile = Some (JSON_stringify testHost invalidSettings)
   \<and> fst (responder testHost testIV (lit ''AIzaTESTKEY'') []
        \<lparr>GGProfile = Some (lit ''AIzaTESTKEY''), CacheManager = testCache,
         apiKeyManager = testManager, isInitialized = True\<rparr>
        (lit ''hello'')
        (emptyWorld\<lparr>files := [settingsFile \<mapsto> JSON_stringify testHost invalidSettings]\<rparr>))
     = Inl (Error (lit ''Error processing cache '' @ [0x27] @ lit ''settings'' @ [0x27] @ lit '': ''
                   @ lit ''Error validating cache '' @ [0x27] @ lit ''settings'' @ [0x27]
                   @ lit '' and no default value was provided or defined in the schema.''))
   \<and> files (snd (snd (responder testHost testIV (lit ''AIzaTESTKEY'') []
        \<lparr>GGProfile = Some (lit ''AIzaTESTKEY''), CacheManager = testCache,
         apiKeyManager = testManager, isInitialized = True\<rparr>
        (lit ''hello'')
        (emptyWorld\<lparr>files := [settingsFile \<mapsto> JSON_stringify testHost invalidSettings]\<rparr>))))
        settingsFile
     = Some (JSON_stringify testHost invalidSettings)"
proof -
  let ?c = "\<lparr>GGProfile = Some (lit ''AIzaTESTKEY''), CacheManager = testCache,
         apiKeyManager = testManager, isInitialized = True\<rparr>"
  let ?w = "emptyWorld\<lparr>files := [settingsFile \<mapsto> JSON_stringify testHost invalidSettings]\<rparr>"
  have a1: "CacheManager ?c = newCacheController settingsRegistry (lit ''/tmp'')"
    by (simp add: testCache_def)
  have a2: "configPath (apiKeyManager ?c) = homedir testHost @ lit ''/.foxy-config.enc''"
    by (simp add: testManager_def testHost_def lit_def)
  have a3: "files ?w settingsFile = Some (JSON_stringify testHost invalidSettings)"
    by simp
  have rt: "JSON_parse testHost (JSON_stringify testHost invalidSettings) = Inr invalidSettings"
    by (simp add: testHost_def jsonTable_def invalidSettings_def lit_def)
  have inv: "safeParse SettingsSchema invalidSettings = None"
    by (simp add: SettingsSchema_def invalidSettings_def lit_def)
  have a4: "case JSON_parse testHost (JSON_stringify testHost invalidSettings) of
              Inl e \<Rightarrow> True | Inr v \<Rightarrow> safeParse SettingsSchema v = None"
    by (simp add: rt inv)
  have reg: "schemas testCache (lit ''settings'') = Some SettingsSchema"
    by (simp add: testCache_def newCacheController_def settingsRegistry_def)
  have nd: "effectiveDefaultValue SettingsSchema None = None"
    by (simp add: effectiveDefaultValue_def SettingsSchema_def)
  have f: "files ?w (cacheFile testCache (lit ''settings'')) = Some (JSON_stringify testHost invalidSettings)"
    by (simp add: settingsFile_def testCache_def)
  have re: "readError ?w (cacheFile testCache (lit ''settings'')) = None"
    by (simp add: emptyWorld_def)
  note msg = loadCache_invalid_message [OF reg nd f re rt inv]
  have ex: "hasExistingCache testCache (lit ''settings'') ?w"
    using f by (simp add: hasExistingCache_def existsSync_def)
  have val: "fst (responder testHost testIV (lit ''AIzaTESTKEY'') [] ?c (lit ''hello'') ?w)
     = Inl (Error (lit ''Error processing cache '' @ [0x27] @ lit ''settings'' @ [0x27] @ lit '': ''
                   @ lit ''Error validating cache '' @ [0x27] @ lit ''settings'' @ [0x27]
                   @ lit '' and no default value was provided or defined in the schema.''))"
    by (simp add: responder_def ensureInitialized_def ex msg)
  from responder_throws_on_invalid_settings [OF a1 a2 a3 a4, of testIV "lit ''AIzaTESTKEY''" "[]" "lit ''hello''"]
    val a3
  show ?thesis by simp
qed


section \<open>Properties of the config loader\<close>

lemma map_of_setProp: "map_of (setProp k x ps) = (map_of ps)(k \<mapsto> x)"
  by (induction ps) (auto simp: fun_eq_iff)

lemma map_of_foldl_setProp:
  "distinct (map fst kvs) \<Longrightarrow>
   map_of (foldl (\<lambda>acc (k, x). setProp k x acc) t kvs) = map_of t ++ map_of kvs"
proof (induction kvs arbitrary: t)
  case Nil
  show ?case by simp
next
  case (Cons kv kvs)
  obtain k x where kv: "kv = (k, x)" by (cases kv)
  from Cons.prems kv have nk: "k \<notin> fst ` set kvs" and d: "distinct (map fst kvs)" by auto
  from nk have nd: "map_of kvs k = None" by (simp add: map_of_eq_None_iff)
  have "map_of (foldl (\<lambda>acc (k, x). setProp k x acc) t (kv # kvs))
        = map_of (foldl (\<lambda>acc (k, x). setProp k x acc) (setProp k x t) kvs)"
    by (simp add: kv)
  also have "\<dots> = map_of (setProp k x t) ++ map_of kvs"
    by (rule Cons.IH [OF d])
  also have "\<dots> = (map_of t)(k \<mapsto> x) ++ map_of kvs"
    by (simp only: map_of_setProp)
  also have "\<dots> = map_of t ++ map_of (kv # kvs)"
    using nd kv by (auto simp: fun_eq_iff map_add_def split: option.splits)
  finally show ?case .
qed

lemma map_of_spec_shallowMerge:
  "distinct (map fst (ownProps v)) \<Longrightarrow>
   map_of (spec_shallowMerge d v) = map_of (ownProps d) ++ map_of (ownProps v)"
  by (simp add: spec_shallowMerge_def spread_def map_of_foldl_setProp)

lemma spread_defaults:
  "spread [] (configObject DEFAULT_CONFIG) = ownProps (configObject DEFAULT_CONFIG)"
  "spread [] (gitObject (git DEFAULT_CONFIG)) = ownProps (gitObject (git DEFAULT_CONFIG))"
  by (simp_all add: spread_def ownProps_def configObject_def gitObject_def DEFAULT_CONFIG_def lit_def)

lemma setProp_same: "map_of ps k = Some v \<Longrightarrow> setProp k v ps = ps"
  by (induction ps) (auto split: if_splits)

lemma map_of_foldl_setProp_other:
  "k \<notin> fst ` set kvs \<Longrightarrow>
   map_of (foldl (\<lambda>acc (k, x). setProp k x acc) t kvs) k = map_of t k"
proof (induction kvs arbitrary: t)
  case Nil
  show ?case by simp
next
  case (Cons kv kvs)
  obtain k' x where kv: "kv = (k', x)" by (cases kv)
  from Cons.prems kv have nk: "k \<noteq> k'" and r: "k \<notin> fst ` set kvs" by auto
  have "map_of (foldl (\<lambda>acc (k, x). setProp k x acc) t (kv # kvs)) k
        = map_of (foldl (\<lambda>acc (k, x). setProp k x acc) (setProp k' x t) kvs) k"
    by (simp add: kv)
  also have "\<dots> = map_of (setProp k' x t) k" by (rule Cons.IH [OF r])
  also have "\<dots> = map_of t k" using nk by (simp add: map_of_setProp)
  finally show ?case .
qed

lemma showNat_last: "last (showNat n) = of_nat (48 + n mod 10)"
  by (subst showNat.simps) simp

lemma showNat_not_git: "showNat n \<noteq> lit ''git''"
proof
  assume "showNat n = lit ''git''"
  then have "last (showNat n) = 0x74" by (simp add: lit_def)
  then have "unat (of_nat (48 + n mod 10) :: jschar) = 0x74" by (simp add: showNat_last)
  moreover have "n mod 10 < 10" by simp
  then have "unat (of_nat (48 + n mod 10) :: jschar) = 48 + n mod 10"
    by (simp add: unat_of_nat del: of_nat_add)
  ultimately show False using \<open>n mod 10 < 10\<close> by linarith
qed

lemma git_not_index: "lit ''git'' \<notin> set (map showNat ns)"
proof
  assume "lit ''git'' \<in> set (map showNat ns)"
  then obtain n where "lit ''git'' = showNat n" by auto
  then have "showNat n = lit ''git''" by (rule sym)
  with showNat_not_git show False by blast
qed

lemma git_default:
  "map_of (ownProps (configObject DEFAULT_CONFIG)) (lit ''git'')
   = Some (gitObject (git DEFAULT_CONFIG))"
  by (simp add: ownProps_def configObject_def lit_def)

lemma spec_mergedConfig_absent:
  assumes "getProp u (lit ''git'') = Inr None"
  shows "spec_mergedConfig u = JObj (spec_shallowMerge (configObject DEFAULT_CONFIG) u)"
proof -
  have nk: "lit ''git'' \<notin> fst ` set (ownProps u)"
  proof (cases u)
    case (JObj props)
    with assms have "map_of props (lit ''git'') = None" by (simp add: getProp_def)
    then show ?thesis using JObj by (simp add: ownProps_def map_of_eq_None_iff)
  next
    case (JArr xs)
    show ?thesis using JArr git_not_index [of "[0..<length xs]"]
      by (auto simp: ownProps_def simp del: set_map dest!: set_zip_leftD)
  next
    case (JStr s)
    show ?thesis using JStr git_not_index [of "[0..<length s]"]
      by (auto simp: ownProps_def simp del: set_map dest!: set_zip_leftD)
  qed (simp_all add: ownProps_def)
  have top: "map_of (spec_shallowMerge (configObject DEFAULT_CONFIG) u) (lit ''git'')
             = Some (gitObject (git DEFAULT_CONFIG))"
    unfolding spec_shallowMerge_def spread_def
    by (simp only: map_of_foldl_setProp_other [OF nk] git_default)
  have grp: "spec_fileGitGroup u = JObj []"
    using assms by (cases u) (simp_all add: spec_fileGitGroup_def getProp_def)
  have g: "JObj (spec_shallowMerge (gitObject (git DEFAULT_CONFIG)) (JObj []))
           = gitObject (git DEFAULT_CONFIG)"
    by (simp add: spec_shallowMerge_def spread_def ownProps_def gitObject_def)
  show ?thesis
    unfolding spec_mergedConfig_def grp g by (simp only: setProp_same [OF top])
qed

lemma readAndMerge_parsed:
  assumes "readFileSync w p = Inr content" and "JSON_parse H content = Inr u"
  shows "readAndMerge H p w =
           (case getProp u (lit ''git'') of
              Inl e \<Rightarrow> Inl e
            | Inr g \<Rightarrow>
                if truthyValue g \<or> g = None then Inr (spec_mergedConfig u)
                else Inr (JObj (spec_shallowMerge (configObject DEFAULT_CONFIG) u)))"
proof (cases "getProp u (lit ''git'')")
  case (Inl e)
  then show ?thesis using assms by (simp add: readAndMerge_def Let_def)
next
  case (Inr g)
  show ?thesis
  proof (cases g)
    case None
    with Inr spec_mergedConfig_absent [of u] show ?thesis
      using assms
      by (simp add: readAndMerge_def Let_def spread_defaults truthyValue_def spec_shallowMerge_def)
  next
    case (Some x)
    with Inr have grp: "spec_fileGitGroup u = x"
      by (cases u) (auto simp: spec_fileGitGroup_def getProp_def split: option.splits)
    show ?thesis
      using assms Inr Some
      by (simp add: readAndMerge_def Let_def spread_defaults spec_mergedConfig_def grp
          spec_shallowMerge_def)
  qed
qed

lemma getProp_null: "(\<exists>e. getProp u key = Inl e) \<longleftrightarrow> u = JNull"
  by (cases u) (simp_all add: getProp_def)

lemma shallowMerge_git:
  assumes "getProp v (lit ''git'') = Inr (Some g)" and "distinct (map fst (ownProps v))"
  shows "map_of (spec_shallowMerge (configObject DEFAULT_CONFIG) v) (lit ''git'') = Some g"
proof -
  from assms(1) obtain props where v: "v = JObj props" and g: "map_of props (lit ''git'') = Some g"
    by (cases v) (simp_all add: getProp_def)
  have d: "distinct (map fst (ownProps (JObj props)))" using assms(2) v by simp
  show ?thesis unfolding v map_of_spec_shallowMerge [OF d] using g by (simp add: ownProps_def)
qed

text \<open>
  Claim C8, on the code. \<open>loadConfig\<close> returns the built-in defaults, and prints nothing,
  when there is no \<open>.foxycfg\<close>; it returns the defaults and prints the warning when the
  file cannot be read, is not JSON, or holds \<open>null\<close> (reading \<open>git\<close> of \<open>null\<close> throws, and of
  nothing else). Otherwise it prints nothing and returns, when the \<open>git\<close> of the file is
  truthy or absent, the merge the specification describes: the shallow merge of the file
  over the defaults with \<open>git\<close> set to the merge of the file's group over the default
  group; and when the \<open>git\<close> of the file is there and falsy (\<open>null\<close>, \<open>false\<close>, \<open>0\<close>, the empty
  string), the shallow merge alone, whose \<open>git\<close> is that value of the file. The merge is
  key by key: a shallow merge has the file's value for each of its keys and the
  default's for every other key (the keys of a parsed object are distinct), and setting
  \<open>git\<close> changes that key only.
\<close>

theorem loadConfig_contract:
  "loadConfig H p w =
     (if files w p = None then (configObject DEFAULT_CONFIG, w)
      else case readFileSync w p of
             Inl e \<Rightarrow> (configObject DEFAULT_CONFIG, print configWarning w)
           | Inr content \<Rightarrow>
               (case JSON_parse H content of
                  Inl e \<Rightarrow> (configObject DEFAULT_CONFIG, print configWarning w)
                | Inr u \<Rightarrow>
                    (case getProp u (lit ''git'') of
                       Inl e \<Rightarrow> (configObject DEFAULT_CONFIG, print configWarning w)
                     | Inr g \<Rightarrow>
                         if truthyValue g \<or> g = None then (spec_mergedConfig u, w)
                         else (JObj (spec_shallowMerge (configObject DEFAULT_CONFIG) u), w))))
   \<and> ((\<exists>e. getProp v (lit ''git'') = Inl e) \<longleftrightarrow> v = JNull)
   \<and> (getProp v (lit ''git'') = Inr (Some g) \<and> distinct (map fst (ownProps v)) \<longrightarrow>
        map_of (spec_shallowMerge (configObject DEFAULT_CONFIG) v) (lit ''git'') = Some g)
   \<and> (distinct (map fst (ownProps v)) \<longrightarrow>
        map_of (spec_shallowMerge d v) = map_of (ownProps d) ++ map_of (ownProps v))
   \<and> map_of (setProp k x ps) = (map_of ps)(k \<mapsto> x)"
proof -
  have main: "loadConfig H p w =
     (if files w p = None then (configObject DEFAULT_CONFIG, w)
      else case readFileSync w p of
             Inl e \<Rightarrow> (configObject DEFAULT_CONFIG, print configWarning w)
           | Inr content \<Rightarrow>
               (case JSON_parse H content of
                  Inl e \<Rightarrow> (configObject DEFAULT_CONFIG, print configWarning w)
                | Inr u \<Rightarrow>
                    (case getProp u (lit ''git'') of
                       Inl e \<Rightarrow> (configObject DEFAULT_CONFIG, print configWarning w)
                     | Inr g \<Rightarrow>
                         if truthyValue g \<or> g = None then (spec_mergedConfig u, w)
                         else (JObj (spec_shallowMerge (configObject DEFAULT_CONFIG) u), w))))"
  proof (cases "files w p = None")
    case True
    then show ?thesis by (simp add: loadConfig_def existsSync_def)
  next
    case False
    then have ex: "existsSync w p" by (simp add: existsSync_def)
    show ?thesis
    proof (cases "readFileSync w p")
      case (Inl e)
      then show ?thesis using False ex by (auto simp: loadConfig_def readAndMerge_def)
    next
      case (Inr content)
      show ?thesis
      proof (cases "JSON_parse H content")
        case (Inl e)
        then show ?thesis using False ex Inr by (auto simp: loadConfig_def readAndMerge_def)
      next
        case u: (Inr u)
        show ?thesis
          using False ex Inr u
          by (auto simp: loadConfig_def readAndMerge_parsed [OF Inr u] split: sum.splits)
      qed
    qed
  qed
  show ?thesis
    using main getProp_null [of v "lit ''git''"] shallowMerge_git [of v g]
      map_of_spec_shallowMerge [of v d] map_of_setProp [of k x ps]
    by blast
qed

theorem loadConfig_contract_witness:
  "distinct (map fst (ownProps (JObj [(lit ''emojis'', JBool False),
                                      (lit ''git'', JObj [(lit ''autoCommit'', JBool True)])])))
   \<and> loadConfig testHost (foxycfgPath (lit ''/repo''))
        (emptyWorld\<lparr>files := [foxycfgPath (lit ''/repo'') \<mapsto> testConfigText]\<rparr>)
     = (configObject (DEFAULT_CONFIG\<lparr>emojis := False,
                        git := (git DEFAULT_CONFIG)\<lparr>autoCommit := True\<rparr>\<rparr>),
        emptyWorld\<lparr>files := [foxycfgPath (lit ''/repo'') \<mapsto> testConfigText]\<rparr>)
   \<and> loadConfig testHost (foxycfgPath (lit ''/repo'')) emptyWorld
     = (configObject DEFAULT_CONFIG, emptyWorld)
   \<and> loadConfig testHost (foxycfgPath (lit ''/repo''))
        (emptyWorld\<lparr>files := [foxycfgPath (lit ''/repo'') \<mapsto> lit ''{not json'']\<rparr>)
     = (configObject DEFAULT_CONFIG,
        print configWarning
          (emptyWorld\<lparr>files := [foxycfgPath (lit ''/repo'') \<mapsto> lit ''{not json'']\<rparr>))
   \<and> loadConfig testHost (foxycfgPath (lit ''/repo''))
        (emptyWorld\<lparr>files := [foxycfgPath (lit ''/repo'') \<mapsto> lit ''null'']\<rparr>)
     = (configObject DEFAULT_CONFIG,
        print configWarning
          (emptyWorld\<lparr>files := [foxycfgPath (lit ''/repo'') \<mapsto> lit ''null'']\<rparr>))
   \<and> map_of (spec_shallowMerge (configObject DEFAULT_CONFIG)
                (JObj [(lit ''emojis'', JBool False),
                       (lit ''git'', JObj [(lit ''autoCommit'', JBool True)])]))
        (lit ''emojis'') = Some (JBool False)
   \<and> map_of (spec_shallowMerge (configObject DEFAULT_CONFIG)
                (JObj [(lit ''emojis'', JBool False),
                       (lit ''git'', JObj [(lit ''autoCommit'', JBool True)])]))
        (lit ''git'') = Some (JObj [(lit ''autoCommit'', JBool True)])"
proof -
  let ?g = "JObj [(lit ''autoCommit'', JBool True)]"
  let ?u = "JObj [(lit ''emojis'', JBool False), (lit ''git'', ?g)]"
  let ?p = "foxycfgPath (lit ''/repo'')"
  let ?w = "emptyWorld\<lparr>files := [?p \<mapsto> testConfigText]\<rparr>"
  let ?wbad = "emptyWorld\<lparr>files := [?p \<mapsto> lit ''{not json'']\<rparr>"
  let ?wnull = "emptyWorld\<lparr>files := [?p \<mapsto> lit ''null'']\<rparr>"
  have d: "distinct (map fst (ownProps ?u))"
    by (simp add: ownProps_def lit_def)
  have parse: "JSON_parse testHost testConfigText = Inr ?u"
    by (simp add: testHost_def jsonTable_def testConfigText_def lit_def)
  have bad: "JSON_parse testHost (lit ''{not json'') = Inl (Error (lit ''Unexpected token''))"
    by (simp add: testHost_def jsonTable_def lit_def)
  have null: "JSON_parse testHost (lit ''null'') = Inr JNull"
    by (simp add: testHost_def jsonTable_def lit_def)
  have gp: "getProp ?u (lit ''git'') = Inr (Some ?g)"
    by (simp add: getProp_def lit_def)
  have m: "spec_mergedConfig ?u = configObject (DEFAULT_CONFIG\<lparr>emojis := False,
                        git := (git DEFAULT_CONFIG)\<lparr>autoCommit := True\<rparr>\<rparr>)"
    by (simp add: spec_mergedConfig_def spec_fileGitGroup_def spec_shallowMerge_def spread_def
        ownProps_def configObject_def gitObject_def DEFAULT_CONFIG_def lit_def)
  note t1 = loadConfig_contract [of testHost ?p ?w ?u ?g "configObject DEFAULT_CONFIG"]
  note t2 = loadConfig_contract [of testHost ?p emptyWorld]
  note t3 = loadConfig_contract [of testHost ?p ?wbad]
  note t4 = loadConfig_contract [of testHost ?p ?wnull]
  have r1: "loadConfig testHost ?p ?w = (spec_mergedConfig ?u, ?w)"
    using t1 parse gp by (simp add: readFileSync_def emptyWorld_def truthyValue_def)
  have r2: "loadConfig testHost ?p emptyWorld = (configObject DEFAULT_CONFIG, emptyWorld)"
    using t2 by (simp add: emptyWorld_def)
  have r3: "loadConfig testHost ?p ?wbad = (configObject DEFAULT_CONFIG, print configWarning ?wbad)"
    using t3 bad by (simp add: readFileSync_def emptyWorld_def)
  have r4: "loadConfig testHost ?p ?wnull = (configObject DEFAULT_CONFIG, print configWarning ?wnull)"
    using t4 null by (simp add: readFileSync_def emptyWorld_def getProp_def)
  have r5: "map_of (spec_shallowMerge (configObject DEFAULT_CONFIG) ?u) (lit ''emojis'') = Some (JBool False)"
    using t1 d by (simp add: ownProps_def lit_def)
  have r6: "map_of (spec_shallowMerge (configObject DEFAULT_CONFIG) ?u) (lit ''git'') = Some ?g"
    using t1 d gp by blast
  from d r1 r2 r3 r4 r5 r6 m show ?thesis by simp
qed

text \<open>
  Claim C8 as worded fails on the file \<open>{"git":null}\<close>: the merge of the file's group over
  the default group is the default group, and \<open>loadConfig\<close> returns a configuration whose
  \<open>git\<close> is \<open>null\<close>.
\<close>

theorem loadConfig_git_null_counterexample:
  "JSON_parse testHost gitNullConfigText = Inr (JObj [(lit ''git'', JNull)])
   \<and> fst (loadConfig testHost (foxycfgPath (lit ''/repo''))
            (emptyWorld\<lparr>files := [foxycfgPath (lit ''/repo'') \<mapsto> gitNullConfigText]\<rparr>))
     = JObj (setProp (lit ''git'') JNull (ownProps (configObject DEFAULT_CONFIG)))
   \<and> getProp (fst (loadConfig testHost (foxycfgPath (lit ''/repo''))
                     (emptyWorld\<lparr>files := [foxycfgPath (lit ''/repo'') \<mapsto> gitNullConfigText]\<rparr>)))
        (lit ''git'')
     = Inr (Some JNull)
   \<and> spec_mergedConfig (JObj [(lit ''git'', JNull)]) = configObject DEFAULT_CONFIG
   \<and> getProp (spec_mergedConfig (JObj [(lit ''git'', JNull)])) (lit ''git'')
     = Inr (Some (gitObject (git DEFAULT_CONFIG)))
   \<and> fst (loadConfig testHost (foxycfgPath (lit ''/repo''))
            (emptyWorld\<lparr>files := [foxycfgPath (lit ''/repo'') \<mapsto> gitNullConfigText]\<rparr>))
     \<noteq> spec_mergedConfig (JObj [(lit ''git'', JNull)])"
proof -
  let ?u = "JObj [(lit ''git'', JNull)]"
  let ?p = "foxycfgPath (lit ''/repo'')"
  let ?w = "emptyWorld\<lparr>files := [?p \<mapsto> gitNullConfigText]\<rparr>"
  have parse: "JSON_parse testHost gitNullConfigText = Inr ?u"
    by (simp add: testHost_def jsonTable_def gitNullConfigText_def lit_def)
  have rd: "readFileSync ?w ?p = Inr gitNullConfigText"
    by (simp add: readFileSync_def emptyWorld_def)
  have ex: "existsSync ?w ?p" by (simp add: existsSync_def)
  have code: "fst (loadConfig testHost ?p ?w)
              = JObj (setProp (lit ''git'') JNull (ownProps (configObject DEFAULT_CONFIG)))"
  proof -
    have gp: "getProp ?u (lit ''git'') = Inr (Some JNull)" by (simp add: getProp_def)
    have rm: "readAndMerge testHost ?p ?w
              = Inr (JObj (spec_shallowMerge (configObject DEFAULT_CONFIG) ?u))"
      unfolding readAndMerge_parsed [OF rd parse] gp by (simp add: truthyValue_def)
    have lc: "loadConfig testHost ?p ?w
              = (JObj (spec_shallowMerge (configObject DEFAULT_CONFIG) ?u), ?w)"
      unfolding loadConfig_def rm using ex by simp
    have sm: "spec_shallowMerge (configObject DEFAULT_CONFIG) ?u
              = setProp (lit ''git'') JNull (ownProps (configObject DEFAULT_CONFIG))"
      by (simp add: spec_shallowMerge_def spread_def ownProps_def)
    show ?thesis unfolding lc sm by simp
  qed
  have spec: "spec_mergedConfig ?u = configObject DEFAULT_CONFIG"
    by (simp add: spec_mergedConfig_def spec_fileGitGroup_def spec_shallowMerge_def spread_def
        ownProps_def configObject_def gitObject_def lit_def)
  have g1: "getProp (JObj (setProp (lit ''git'') JNull (ownProps (configObject DEFAULT_CONFIG))))
              (lit ''git'') = Inr (Some JNull)"
    by (simp add: getProp_def map_of_setProp)
  have g2: "getProp (configObject DEFAULT_CONFIG) (lit ''git'')
            = Inr (Some (gitObject (git DEFAULT_CONFIG)))"
    by (simp add: getProp_def configObject_def lit_def)
  have ne: "JObj (setProp (lit ''git'') JNull (ownProps (configObject DEFAULT_CONFIG)))
            \<noteq> configObject DEFAULT_CONFIG"
  proof
    assume "JObj (setProp (lit ''git'') JNull (ownProps (configObject DEFAULT_CONFIG)))
            = configObject DEFAULT_CONFIG"
    with g1 g2 show False by (simp add: gitObject_def)
  qed
  from parse code spec g1 g2 ne show ?thesis by simp
qed

end
